theory Spec2Isabelle
  imports Main "HOL-Library.AList" "HOL-Library.Word"
begin

section \<open>Bounded capturing sink (\<open>limitedWriter\<close>, docker.go)\<close>

text \<open>
  A Go \<open>[]byte\<close> is a list of bytes; Isabelle characters are bytes, so a byte slice
  is a \<open>string\<close>.  Go's \<open>int\<close> counters are modelled as \<open>int\<close>: \<open>Written\<close> never
  exceeds \<open>Max\<close> when \<open>Max\<close> is non-negative, so no wrap-around can occur.
\<close>

type_synonym bytes = string

text \<open>
  An error of the container runtime's client library: its message, and whether its
  chain contains \<open>context.DeadlineExceeded\<close> (what \<open>errors.Is\<close> tests).
\<close>

datatype rt_error = RtError string bool

fun rt_message :: "rt_error \<Rightarrow> string" where
  "rt_message (RtError m d) = m"

fun rt_deadline :: "rt_error \<Rightarrow> bool" where
  "rt_deadline (RtError m d) = d"

text \<open>
  \<open>limitedWriter\<close> wraps an \<open>io.Writer\<close>.  The only writer \<open>Exec\<close> ever puts in the
  field \<open>W\<close> is a \<open>*bytes.Buffer\<close>; the field holds that buffer's contents.
\<close>

record limitedWriter =
  W :: bytes
  Max :: int
  Written :: int
  Truncated :: bool

text \<open>
  \<open>bytes.Buffer.Write\<close> appends the whole slice and returns \<open>(len(p), nil)\<close>;
  \<open>None\<close> stands for Go's \<open>nil\<close> error.
\<close>

definition Buffer_Write :: "bytes \<Rightarrow> bytes \<Rightarrow> (int \<times> rt_error option) \<times> bytes" where
  "Buffer_Write p buf = ((int (length p), None), buf @ p)"

text \<open>
  \<open>func (lw *limitedWriter) Write(p []byte) (int, error)\<close>, branch by branch.
  In the second branch \<open>remaining\<close> is positive, so the slice expression
  \<open>p[:remaining]\<close> is in range whenever it is evaluated.
\<close>

definition Write :: "bytes \<Rightarrow> limitedWriter \<Rightarrow> (int \<times> rt_error option) \<times> limitedWriter" where
  "Write p lw =
    (if Written lw \<ge> Max lw
     then ((int (length p), None), lw\<lparr>Truncated := True\<rparr>)
     else
       let remaining = Max lw - Written lw;
           over = (int (length p) > remaining);
           p' = (if over then take (nat remaining) p else p);
           ((n, err), buf') = Buffer_Write p' (W lw)
       in ((n, err),
           lw\<lparr>W := buf', Written := Written lw + n,
              Truncated := (if over then True else Truncated lw)\<rparr>))"

text \<open>\<open>&limitedWriter{W: &buf, Max: m}\<close> over a fresh buffer.\<close>

definition new_limitedWriter :: "int \<Rightarrow> limitedWriter" where
  "new_limitedWriter m = \<lparr>W = [], Max = m, Written = 0, Truncated = False\<rparr>"

subsection \<open>The runtime's demultiplexer\<close>

text \<open>
  \<open>stdcopy.StdCopy(dstout, dsterr, src)\<close> belongs to the container runtime's client
  library, not to this repository.  It is modelled at the granularity of frames, after
  the library's loop: the attach stream is a sequence of frames, each a stream tag and a
  payload; a frame tagged \<open>Stdin\<close> or \<open>Stdout\<close> is written to \<open>dstout\<close>, one tagged
  \<open>Stderr\<close> to \<open>dsterr\<close>, with one \<open>Write\<close> call per frame; a \<open>Systemerr\<close> frame ends
  the copy with an error; a \<open>Write\<close> that returns an error ends the copy with that
  error, and a \<open>Write\<close> that returns a count different from the frame's size ends it with
  \<open>io.ErrShortWrite\<close>; the end of the stream ends it with \<open>nil\<close>.  The frames given to
  the model are the ones completely received before the stream ended.
\<close>

datatype StdType = Stdin | Stdout | Stderr | Systemerr

type_synonym frame = "StdType \<times> bytes"

definition ErrShortWrite :: rt_error where
  "ErrShortWrite = RtError ''short write'' False"

fun StdCopy_from :: "int \<Rightarrow> limitedWriter \<Rightarrow> limitedWriter \<Rightarrow> frame list
    \<Rightarrow> (int \<times> rt_error option) \<times> limitedWriter \<times> limitedWriter" where
  "StdCopy_from written dstout dsterr [] = ((written, None), dstout, dsterr)"
| "StdCopy_from written dstout dsterr ((stream, payload) # rest) =
    (if stream = Systemerr
     then ((written, Some (RtError (''error from daemon in stream: '' @ payload) False)),
           dstout, dsterr)
     else if stream = Stderr
     then (case Write payload dsterr of
             ((nw, ew), dsterr') \<Rightarrow>
               if ew \<noteq> None then ((0, ew), dstout, dsterr')
               else if nw \<noteq> int (length payload)
               then ((0, Some ErrShortWrite), dstout, dsterr')
               else StdCopy_from (written + nw) dstout dsterr' rest)
     else (case Write payload dstout of
             ((nw, ew), dstout') \<Rightarrow>
               if ew \<noteq> None then ((0, ew), dstout', dsterr)
               else if nw \<noteq> int (length payload)
               then ((0, Some ErrShortWrite), dstout', dsterr)
               else StdCopy_from (written + nw) dstout' dsterr rest))"

definition StdCopy :: "limitedWriter \<Rightarrow> limitedWriter \<Rightarrow> frame list
    \<Rightarrow> (int \<times> rt_error option) \<times> limitedWriter \<times> limitedWriter" where
  "StdCopy dstout dsterr src = StdCopy_from 0 dstout dsterr src"

text \<open>The payload bytes a framed stream carries for one logical stream.\<close>

definition produced :: "bool \<Rightarrow> frame list \<Rightarrow> bytes" where
  "produced to_stderr src =
     concat (map snd (filter (\<lambda>(stream, payload).
        stream \<noteq> Systemerr \<and> (stream = Stderr) = to_stderr) src))"

section \<open>The provider (\<open>DockerProvider\<close>, docker.go)\<close>

text \<open>
  A \<open>time.Time\<close> is an instant on one time line and a \<open>time.Duration\<close> a
  difference of instants, both counted in nanoseconds.
\<close>

record Sandbox =
  ID :: string
  ContainerID :: string
  Template :: string
  CreatedAt :: int
  ExpiresAt :: int

text \<open>The template table: which image each template uses.\<close>

definition templates :: "(string \<times> string) list" where
  "templates =
     [(''python'', ''python:3.11-slim''),
      (''node'', ''node:20-slim''),
      (''go'', ''golang:1.22-alpine'')]"

text \<open>
  The fields of \<open>container.Config\<close>, \<open>container.Resources\<close> and
  \<open>container.HostConfig\<close> that \<open>Create\<close> sets; every other field keeps Go's zero value.
  \<open>PidsLimit\<close> is a pointer in the runtime's API, hence an option.
\<close>

record Config =
  Image :: string
  Cmd :: "string list"
  WorkingDir :: string
  Tty :: bool
  OpenStdin :: bool
  AttachStdin :: bool
  AttachStdout :: bool
  AttachStderr :: bool

record Resources =
  Memory :: int
  MemorySwap :: int
  CPUPeriod :: int
  CPUQuota :: int
  PidsLimit :: "int option"

record HostConfig =
  CapDrop :: "string list"
  NetworkMode :: string
  SecurityOpt :: "string list"
  Resources :: Resources

text \<open>
  \<open>container.ExecOptions\<close>, by position: \<open>Cmd\<close>, \<open>WorkingDir\<close>, \<open>Env\<close>, \<open>Tty\<close>,
  \<open>AttachStdin\<close>, \<open>AttachStdout\<close>, \<open>AttachStderr\<close>.
\<close>

datatype ExecOptions = ExecOptions "string list" string "string list" bool bool bool bool

text \<open>
  What an operation does to the world outside its own locals, in program order: each call
  of the runtime client with its arguments and the reply it got, and each write to the
  map \<open>p.sandboxes\<close> (made under \<open>p.mu.Lock()\<close>).
\<close>

datatype event =
    Rt_ImageInspectWithRaw string "rt_error option"
  | Rt_ImagePull string "rt_error option"
  | Rt_ContainerCreate Config HostConfig string "rt_error + string"
  | Rt_ContainerStart string "rt_error option"
  | Rt_ContainerRemove string bool "rt_error option"
  | Rt_ContainerExecCreate string ExecOptions "rt_error + string"
  | Rt_ContainerExecAttach string "rt_error option"
  | Rt_ContainerExecInspect string "rt_error + int"
  | Reg_store string Sandbox
  | Reg_delete string

text \<open>
  Everything an operation reads from outside the process while it runs: the replies of
  the runtime client (\<open>None\<close> or \<open>Inr\<close> for a \<open>nil\<close> error), the identifier
  generator and the clock (\<open>time_Now\<close> is read by the provider,
  \<open>time_Now_ServeHTTP\<close> by the handler after \<open>Create\<close> has returned).
  \<open>ContainerCreate\<close> replies with \<open>resp.ID\<close>,
  \<open>ContainerExecCreate\<close> with \<open>execID.ID\<close>, \<open>ContainerExecAttach\<close> with the
  frames of \<open>resp.Reader\<close>, \<open>ContainerExecInspect\<close> with \<open>ExitCode\<close>.
  \<open>ctx_DeadlineExceeded\<close> is the test \<open>ctx.Err() == context.DeadlineExceeded\<close> made
  after the copy; \<open>time_Since\<close> is the value of \<open>time.Since(start)\<close>;
  \<open>Format_RFC3339\<close> is \<open>t.UTC().Format(time.RFC3339)\<close>.
\<close>

record world =
  ImageInspectWithRaw :: "string \<Rightarrow> rt_error option"
  ImagePull :: "string \<Rightarrow> rt_error option"
  ContainerCreate :: "Config \<Rightarrow> HostConfig \<Rightarrow> string \<Rightarrow> rt_error + string"
  ContainerStart :: "string \<Rightarrow> rt_error option"
  ContainerRemove :: "string \<Rightarrow> bool \<Rightarrow> rt_error option"
  ContainerExecCreate :: "string \<Rightarrow> ExecOptions \<Rightarrow> rt_error + string"
  ContainerExecAttach :: "string \<Rightarrow> rt_error + frame list"
  ContainerExecInspect :: "string \<Rightarrow> rt_error + int"
  uuid_New :: string
  time_Now :: int
  time_Now_ServeHTTP :: int
  time_Since :: int
  ctx_DeadlineExceeded :: bool
  Format_RFC3339 :: "int \<Rightarrow> string"

text \<open>
  The provider's state is the map \<open>sandboxes\<close>.  Go's map has unique keys and no
  iteration order; it is an association list here, read with \<open>map_of\<close> and written with
  \<open>AList.update\<close> and \<open>AList.delete\<close>, because \<open>cleanupExpired\<close> ranges over it.
\<close>

record DockerProvider =
  sandboxes :: "(string \<times> Sandbox) list"

definition NewDockerProvider_state :: DockerProvider where
  "NewDockerProvider_state = \<lparr>sandboxes = []\<rparr>"

text \<open>The errors the provider builds with \<open>fmt.Errorf\<close>, one constructor per call site.\<close>

datatype error =
    unknown_template string
  | failed_to_pull_image string rt_error
  | failed_to_create_container rt_error
  | failed_to_start_container rt_error
  | sandbox_not_found string
  | exec_create_failed rt_error
  | exec_attach_failed rt_error
  | failed_to_remove_container rt_error

text \<open>\<open>err.Error()\<close>: the formatted message.\<close>

fun Error_string :: "error \<Rightarrow> string" where
  "Error_string (unknown_template t) = ''unknown template: '' @ t"
| "Error_string (failed_to_pull_image img e) =
     ''failed to pull image '' @ img @ '': '' @ rt_message e"
| "Error_string (failed_to_create_container e) = ''failed to create container: '' @ rt_message e"
| "Error_string (failed_to_start_container e) = ''failed to start container: '' @ rt_message e"
| "Error_string (sandbox_not_found i) = ''sandbox not found: '' @ i"
| "Error_string (exec_create_failed e) = ''exec create failed: '' @ rt_message e"
| "Error_string (exec_attach_failed e) = ''exec attach failed: '' @ rt_message e"
| "Error_string (failed_to_remove_container e) = ''failed to remove container: '' @ rt_message e"

text \<open>
  \<open>errors.Is(err, context.DeadlineExceeded)\<close>: the verb \<open>%w\<close> keeps the wrapped
  error in the chain, \<open>%s\<close> does not.
\<close>

fun Is_DeadlineExceeded :: "error \<Rightarrow> bool" where
  "Is_DeadlineExceeded (unknown_template t) = False"
| "Is_DeadlineExceeded (failed_to_pull_image img e) = rt_deadline e"
| "Is_DeadlineExceeded (failed_to_create_container e) = rt_deadline e"
| "Is_DeadlineExceeded (failed_to_start_container e) = rt_deadline e"
| "Is_DeadlineExceeded (sandbox_not_found i) = False"
| "Is_DeadlineExceeded (exec_create_failed e) = rt_deadline e"
| "Is_DeadlineExceeded (exec_attach_failed e) = rt_deadline e"
| "Is_DeadlineExceeded (failed_to_remove_container e) = rt_deadline e"

subsection \<open>Create\<close>

definition Create_config :: "string \<Rightarrow> Config" where
  "Create_config img =
     \<lparr>Image = img, Cmd = [''sleep'', ''infinity''], WorkingDir = ''/workspace'',
      Tty = False, OpenStdin = True, AttachStdin = True, AttachStdout = True,
      AttachStderr = True\<rparr>"

definition Create_hostConfig :: HostConfig where
  "Create_hostConfig =
     \<lparr>CapDrop = [''ALL''], NetworkMode = ''none'', SecurityOpt = [''no-new-privileges''],
      Resources = \<lparr>Memory = 512 * 1024 * 1024, MemorySwap = 512 * 1024 * 1024,
                   CPUPeriod = 100000, CPUQuota = 50000, PidsLimit = Some 100\<rparr>\<rparr>"

text \<open>
  \<open>func (p *DockerProvider) Create(ctx, template, ttl) (string, time.Time, error)\<close>.
  The result is the error or the pair \<open>(sandboxID, expiresAt)\<close>, with the new state and
  the events.  The image is pulled only when the inspection fails.
\<close>

definition Create :: "world \<Rightarrow> string \<Rightarrow> int \<Rightarrow> DockerProvider
    \<Rightarrow> (error + string \<times> int) \<times> DockerProvider \<times> event list" where
  "Create w template ttl p =
    (case map_of templates template of
       None \<Rightarrow> (Inl (unknown_template template), p, [])
     | Some img \<Rightarrow>
        let inspected = ImageInspectWithRaw w img;
            pulled = (if inspected \<noteq> None then ImagePull w img else None);
            ev_image = Rt_ImageInspectWithRaw img inspected #
                       (if inspected \<noteq> None then [Rt_ImagePull img pulled] else [])
        in (case pulled of
              Some e \<Rightarrow> (Inl (failed_to_pull_image img e), p, ev_image)
            | None \<Rightarrow>
               let sandboxID = take 8 (uuid_New w);
                   config = Create_config img;
                   hostConfig = Create_hostConfig;
                   name = ''sandbox-'' @ sandboxID;
                   created = ContainerCreate w config hostConfig name;
                   ev_create = ev_image @ [Rt_ContainerCreate config hostConfig name created]
               in (case created of
                     Inl e \<Rightarrow> (Inl (failed_to_create_container e), p, ev_create)
                   | Inr resp_ID \<Rightarrow>
                      let started = ContainerStart w resp_ID;
                          ev_start = ev_create @ [Rt_ContainerStart resp_ID started]
                      in (case started of
                            Some e \<Rightarrow>
                              (Inl (failed_to_start_container e), p,
                               ev_start @
                               [Rt_ContainerRemove resp_ID True (ContainerRemove w resp_ID True)])
                          | None \<Rightarrow>
                              let now = time_Now w;
                                  expiresAt = now + ttl;
                                  sb = \<lparr>ID = sandboxID, ContainerID = resp_ID,
                                        Template = template, CreatedAt = now,
                                        ExpiresAt = expiresAt\<rparr>
                              in (Inr (sandboxID, expiresAt),
                                  p\<lparr>sandboxes := AList.update sandboxID sb (sandboxes p)\<rparr>,
                                  ev_start @ [Reg_store sandboxID sb])))))"

subsection \<open>Exec\<close>

text \<open>The eight results of \<open>Exec\<close>, by name.\<close>

record ExecReturn =
  stdout :: bytes
  stderr :: bytes
  exitCode :: int
  timedOut :: bool
  outTrunc :: bool
  errTrunc :: bool
  duration :: int
  err :: "error option"

definition Exec_failed :: "int \<Rightarrow> error \<Rightarrow> ExecReturn" where
  "Exec_failed d e =
     \<lparr>stdout = [], stderr = [], exitCode = - 1, timedOut = False, outTrunc = False,
      errTrunc = False, duration = d, err = Some e\<rparr>"

text \<open>
  \<open>func (p *DockerProvider) Exec(ctx, sandboxID, cmd, cwd, env, maxOut, maxErr)\<close>.
  The error of \<open>StdCopy\<close> is overwritten by the one of \<open>ContainerExecInspect\<close> before
  it is read, so only the two sinks survive the copy.  \<open>Exec\<close> does not write the map.
\<close>

definition Exec :: "world \<Rightarrow> string \<Rightarrow> string list \<Rightarrow> string \<Rightarrow> (string \<times> string) list
    \<Rightarrow> int \<Rightarrow> int \<Rightarrow> DockerProvider \<Rightarrow> ExecReturn \<times> event list" where
  "Exec w sandboxID cmd cwd env maxOut maxErr p =
    (case map_of (sandboxes p) sandboxID of
       None \<Rightarrow> (Exec_failed 0 (sandbox_not_found sandboxID), [])
     | Some sandbox \<Rightarrow>
        let envSlice = map (\<lambda>(k, v). k @ ''='' @ v) env;
            workDir = (if cwd \<noteq> [] then cwd else ''/workspace'');
            execConfig = ExecOptions cmd workDir envSlice False False True True;
            created = ContainerExecCreate w (ContainerID sandbox) execConfig;
            ev_create = [Rt_ContainerExecCreate (ContainerID sandbox) execConfig created]
        in (case created of
              Inl e \<Rightarrow> (Exec_failed (time_Since w) (exec_create_failed e), ev_create)
            | Inr execID \<Rightarrow>
               (case ContainerExecAttach w execID of
                  Inl e \<Rightarrow>
                    (Exec_failed (time_Since w) (exec_attach_failed e),
                     ev_create @ [Rt_ContainerExecAttach execID (Some e)])
                | Inr reader \<Rightarrow>
                   (case StdCopy (new_limitedWriter maxOut) (new_limitedWriter maxErr) reader of
                      (copied, stdoutLimited, stderrLimited) \<Rightarrow>
                        let inspected = ContainerExecInspect w execID
                        in (\<lparr>stdout = W stdoutLimited, stderr = W stderrLimited,
                             exitCode = (case inspected of Inl e \<Rightarrow> - 1 | Inr c \<Rightarrow> c),
                             timedOut = ctx_DeadlineExceeded w,
                             outTrunc = Truncated stdoutLimited,
                             errTrunc = Truncated stderrLimited,
                             duration = time_Since w, err = None\<rparr>,
                            ev_create @ [Rt_ContainerExecAttach execID None,
                                         Rt_ContainerExecInspect execID inspected])))))"

subsection \<open>Delete\<close>

text \<open>
  \<open>Delete\<close> in its two parts.  \<open>Delete_locked\<close> is the section between
  \<open>p.mu.Lock()\<close> and \<open>p.mu.Unlock()\<close>: it yields \<open>sandbox, ok\<close> (an option) and the
  map without the entry.  \<open>Delete_unlocked\<close> is the rest, which runs without the lock.
\<close>

definition Delete_locked :: "string \<Rightarrow> DockerProvider
    \<Rightarrow> Sandbox option \<times> DockerProvider \<times> event list" where
  "Delete_locked sandboxID p =
    (case map_of (sandboxes p) sandboxID of
       None \<Rightarrow> (None, p, [])
     | Some sandbox \<Rightarrow>
        (Some sandbox, p\<lparr>sandboxes := AList.delete sandboxID (sandboxes p)\<rparr>,
         [Reg_delete sandboxID]))"

definition Delete_unlocked :: "world \<Rightarrow> string \<Rightarrow> Sandbox option
    \<Rightarrow> error option \<times> event list" where
  "Delete_unlocked w sandboxID found =
    (case found of
       None \<Rightarrow> (Some (sandbox_not_found sandboxID), [])
     | Some sandbox \<Rightarrow>
        let removed = ContainerRemove w (ContainerID sandbox) True
        in ((case removed of
               Some e \<Rightarrow> Some (failed_to_remove_container e)
             | None \<Rightarrow> None),
            [Rt_ContainerRemove (ContainerID sandbox) True removed]))"

definition Delete :: "world \<Rightarrow> string \<Rightarrow> DockerProvider
    \<Rightarrow> error option \<times> DockerProvider \<times> event list" where
  "Delete w sandboxID p =
    (case Delete_locked sandboxID p of
       (found, p', ev_locked) \<Rightarrow>
         (case Delete_unlocked w sandboxID found of
            (e, ev_unlocked) \<Rightarrow> (e, p', ev_locked @ ev_unlocked)))"

subsection \<open>The reaper\<close>

text \<open>\<open>t.After(u)\<close> reports whether the instant \<open>t\<close> is after \<open>u\<close>.\<close>

definition After :: "int \<Rightarrow> int \<Rightarrow> bool" where
  "After t u = (u < t)"

text \<open>The first loop of \<open>cleanupExpired\<close>, under the read lock: the value of \<open>toDelete\<close>.\<close>

definition toDelete :: "int \<Rightarrow> DockerProvider \<Rightarrow> string list" where
  "toDelete now p =
     map fst (filter (\<lambda>(i, sb). After now (ExpiresAt sb)) (sandboxes p))"

text \<open>The second loop: one \<open>Delete\<close> per selected id, its error dropped.\<close>

fun Delete_each :: "world \<Rightarrow> string list \<Rightarrow> DockerProvider \<Rightarrow> DockerProvider \<times> event list" where
  "Delete_each w [] p = (p, [])"
| "Delete_each w (i # ids) p =
    (case Delete w i p of
       (e, p', ev) \<Rightarrow>
         (case Delete_each w ids p' of (p'', ev') \<Rightarrow> (p'', ev @ ev')))"

definition cleanupExpired :: "world \<Rightarrow> DockerProvider \<Rightarrow> DockerProvider \<times> event list" where
  "cleanupExpired w p = Delete_each w (toDelete (time_Now w) p) p"

subsection \<open>Lookup for the terminal\<close>

definition GetContainerID :: "string \<Rightarrow> DockerProvider \<Rightarrow> error + string" where
  "GetContainerID sandboxID p =
    (case map_of (sandboxes p) sandboxID of
       None \<Rightarrow> Inl (sandbox_not_found sandboxID)
     | Some sandbox \<Rightarrow> Inr (ContainerID sandbox))"

section \<open>The JSON-RPC handler (rpc.go)\<close>

definition DefaultTimeoutMS :: int where "DefaultTimeoutMS = 5000"
definition DefaultStdoutBytes :: int where "DefaultStdoutBytes = 2 ^ 20"
definition DefaultStderrBytes :: int where "DefaultStderrBytes = 2 ^ 20"
definition MaxTimeoutMS :: int where "MaxTimeoutMS = 120000"
definition MaxOutputBytesCap :: int where "MaxOutputBytesCap = 10 * 2 ^ 20"

text \<open>The request id has Go's type \<open>any\<close>; a JSON-RPC id is absent, a number or a string.\<close>

datatype any = id_absent | id_number int | id_string string

text \<open>
  The parameter structs, by position.
  \<open>CreateParams\<close>: \<open>Template\<close>, \<open>TTLMS\<close>.
  \<open>ExecParams\<close>: \<open>ID\<close>, \<open>Cmd\<close>, \<open>Cwd\<close>, \<open>Env\<close>, \<open>TimeoutMS\<close>, \<open>MaxStdoutBytes\<close>,
  \<open>MaxStderrBytes\<close>.  \<open>DeleteParams\<close>: \<open>ID\<close>.
\<close>

datatype CreateParams = CreateParams string int

datatype ExecParams =
  ExecParams string "string list" string "(string \<times> string) list" int int int

datatype DeleteParams = DeleteParams string

text \<open>
  \<open>encoding/json\<close> is outside the repository.  A \<open>json.RawMessage\<close> is represented
  by what \<open>json.Unmarshal\<close> makes of it for each of the three parameter structs
  (\<open>None\<close> when it returns an error), and a request body by what \<open>io.ReadAll\<close>, on
  at most \<open>2<<20\<close> bytes of it, and then \<open>json.Unmarshal\<close> make of it.
\<close>

record RawMessage =
  Unmarshal_CreateParams :: "CreateParams option"
  Unmarshal_ExecParams :: "ExecParams option"
  Unmarshal_DeleteParams :: "DeleteParams option"

text \<open>\<open>RPCRequest\<close>, by position: \<open>JSONRPC\<close>, \<open>ID\<close>, \<open>Method\<close>, \<open>Params\<close>.\<close>

datatype RPCRequest = RPCRequest string any string RawMessage

datatype request_body = ReadAll_failed | Unmarshal_failed | Unmarshal_ok RPCRequest

text \<open>
  The \<open>Details\<close> of an \<open>ErrorData\<close>: \<open>nil\<close>, \<open>{"err": ...}\<close> or \<open>{"timeout_ms": ...}\<close>.
  \<open>ErrorData\<close>, by position: \<open>Type\<close>, \<open>Retryable\<close>, \<open>Details\<close>.
  \<open>RPCError\<close>: \<open>Code\<close>, \<open>Message\<close>, \<open>Data\<close>.
\<close>

datatype details = no_details | details_err string | details_timeout_ms int

datatype ErrorData = ErrorData string bool details

datatype RPCError = RPCError int string "ErrorData option"

text \<open>
  The result structs, by position.
  \<open>CreateResult\<close>: \<open>ID\<close>, \<open>Template\<close>, \<open>CreatedAt\<close>, \<open>ExpiresAt\<close>.
  \<open>ExecResult\<close>: \<open>Stdout\<close>, \<open>Stderr\<close>, \<open>ExitCode\<close>, \<open>TimedOut\<close>, \<open>StdoutTruncated\<close>,
  \<open>StderrTruncated\<close>, \<open>DurationMS\<close>.  \<open>DeleteResult\<close>: \<open>OK\<close>.
  \<open>RPCResponse\<close>: \<open>JSONRPC\<close>, \<open>ID\<close>, \<open>Result\<close>, \<open>Error\<close>.
\<close>

datatype result =
    CreateResult string string string string
  | ExecResult bytes bytes int bool bool bool int
  | DeleteResult bool

datatype RPCResponse = RPCResponse string any "result option" "RPCError option"

definition rpcErr :: "int \<Rightarrow> string \<Rightarrow> string \<Rightarrow> bool \<Rightarrow> details \<Rightarrow> RPCError" where
  "rpcErr code msg typ retryable dets = RPCError code msg (Some (ErrorData typ retryable dets))"

text \<open>
  \<open>time.Duration(ms) * time.Millisecond\<close> on Go's 64-bit integers, which wrap, and
  \<open>d.Milliseconds()\<close>, an integer division that truncates toward zero.
\<close>

definition Duration_of_ms :: "int \<Rightarrow> int" where
  "Duration_of_ms ms = sint ((word_of_int ms :: 64 word) * 1000000)"

definition Milliseconds :: "int \<Rightarrow> int" where
  "Milliseconds d = (if 0 \<le> d then d div 1000000 else - ((- d) div 1000000))"

text \<open>
  The two statements the \<open>exec\<close> arm applies to each of \<open>timeoutMS\<close>, \<open>maxOut\<close> and
  \<open>maxErr\<close>: \<open>if v <= 0 { v = default }\<close>, then \<open>if v > cap { v = cap }\<close>.
\<close>

definition defaulted_capped :: "int \<Rightarrow> int \<Rightarrow> int \<Rightarrow> int" where
  "defaulted_capped v dflt cap =
     (let v' = (if v \<le> 0 then dflt else v) in if v' > cap then cap else v')"

definition invalid_params :: "any \<Rightarrow> RPCResponse" where
  "invalid_params i =
     RPCResponse ''2.0'' i None
       (Some (rpcErr (- 32001) ''invalid params'' ''INVALID_PARAMS'' False no_details))"

text \<open>
  The three arms of the \<open>switch req.Method\<close> in \<open>ServeHTTP\<close>, each with the request
  id and the raw parameters, and then the switch itself with its \<open>default\<close> arm.
\<close>

definition case_create :: "world \<Rightarrow> any \<Rightarrow> RawMessage \<Rightarrow> DockerProvider
    \<Rightarrow> RPCResponse \<times> DockerProvider \<times> event list" where
  "case_create w req_ID params p =
    (case Unmarshal_CreateParams params of
       None \<Rightarrow> (invalid_params req_ID, p, [])
     | Some (CreateParams template ttlms) \<Rightarrow>
        if template = [] then (invalid_params req_ID, p, [])
        else
          let ttl = (if ttlms \<le> 0 then 10 * 60 * 1000000000 else Duration_of_ms ttlms)
          in (case Create w template ttl p of
                (Inl e, p', ev) \<Rightarrow>
                  (RPCResponse ''2.0'' req_ID None
                     (Some (rpcErr (- 32003) ''container create failed''
                              ''CONTAINER_CREATE_FAILED'' True
                              (details_err (Error_string e)))),
                   p', ev)
              | (Inr (sid, exp), p', ev) \<Rightarrow>
                  (RPCResponse ''2.0'' req_ID
                     (Some (CreateResult sid template
                              (Format_RFC3339 w (time_Now_ServeHTTP w))
                              (Format_RFC3339 w exp)))
                     None,
                   p', ev)))"

definition case_exec :: "world \<Rightarrow> any \<Rightarrow> RawMessage \<Rightarrow> DockerProvider
    \<Rightarrow> RPCResponse \<times> DockerProvider \<times> event list" where
  "case_exec w req_ID params p =
    (case Unmarshal_ExecParams params of
       None \<Rightarrow> (invalid_params req_ID, p, [])
     | Some (ExecParams sid cmd cwd env p_timeout p_maxout p_maxerr) \<Rightarrow>
        if sid = [] \<or> cmd = [] then (invalid_params req_ID, p, [])
        else
          let timeoutMS = defaulted_capped p_timeout DefaultTimeoutMS MaxTimeoutMS;
              maxOut = defaulted_capped p_maxout DefaultStdoutBytes MaxOutputBytesCap;
              maxErr = defaulted_capped p_maxerr DefaultStderrBytes MaxOutputBytesCap
          in (case Exec w sid cmd cwd env maxOut maxErr p of
                (r, ev) \<Rightarrow>
                  (case err r of
                     Some e \<Rightarrow>
                       if Is_DeadlineExceeded e \<or> timedOut r
                       then (RPCResponse ''2.0'' req_ID None
                               (Some (rpcErr (- 32004) ''exec timed out'' ''EXEC_TIMEOUT''
                                        True (details_timeout_ms timeoutMS))),
                             p, ev)
                       else (RPCResponse ''2.0'' req_ID None
                               (Some (rpcErr (- 32005) ''exec failed'' ''EXEC_FAILED''
                                        True (details_err (Error_string e)))),
                             p, ev)
                   | None \<Rightarrow>
                       (RPCResponse ''2.0'' req_ID
                          (Some (ExecResult (stdout r) (stderr r) (exitCode r) (timedOut r)
                                   (outTrunc r) (errTrunc r) (Milliseconds (duration r))))
                          None,
                        p, ev))))"

definition case_delete :: "world \<Rightarrow> any \<Rightarrow> RawMessage \<Rightarrow> DockerProvider
    \<Rightarrow> RPCResponse \<times> DockerProvider \<times> event list" where
  "case_delete w req_ID params p =
    (case Unmarshal_DeleteParams params of
       None \<Rightarrow> (invalid_params req_ID, p, [])
     | Some (DeleteParams sid) \<Rightarrow>
        if sid = [] then (invalid_params req_ID, p, [])
        else
          (case Delete w sid p of
             (Some e, p', ev) \<Rightarrow>
               (RPCResponse ''2.0'' req_ID None
                  (Some (rpcErr (- 32007) ''delete failed'' ''DELETE_FAILED'' True
                           (details_err (Error_string e)))),
                p', ev)
           | (None, p', ev) \<Rightarrow>
               (RPCResponse ''2.0'' req_ID (Some (DeleteResult True)) None, p', ev)))"

definition dispatch :: "world \<Rightarrow> RPCRequest \<Rightarrow> DockerProvider
    \<Rightarrow> RPCResponse \<times> DockerProvider \<times> event list" where
  "dispatch w req p =
    (case req of RPCRequest jsonrpc req_ID method params \<Rightarrow>
      if method = ''sandbox.v1.create'' then case_create w req_ID params p
      else if method = ''sandbox.v1.exec'' then case_exec w req_ID params p
      else if method = ''sandbox.v1.delete'' then case_delete w req_ID params p
      else
        (RPCResponse ''2.0'' req_ID None (Some (RPCError (- 32601) ''method not found'' None)),
         p, []))"

text \<open>\<open>func (s *Server) ServeHTTP(w, r)\<close> with \<open>s.P\<close> the \<open>DockerProvider\<close>, as main.go wires it.\<close>

definition ServeHTTP :: "world \<Rightarrow> request_body \<Rightarrow> DockerProvider
    \<Rightarrow> RPCResponse \<times> DockerProvider \<times> event list" where
  "ServeHTTP w body p =
    (case body of
       ReadAll_failed \<Rightarrow>
         (RPCResponse ''2.0'' id_absent None
            (Some (rpcErr (- 32001) ''invalid request body'' ''INVALID_PARAMS'' False no_details)),
          p, [])
     | Unmarshal_failed \<Rightarrow>
         (RPCResponse ''2.0'' id_absent None
            (Some (rpcErr (- 32001) ''invalid json-rpc request'' ''INVALID_PARAMS'' False
                     no_details)),
          p, [])
     | Unmarshal_ok (RPCRequest jsonrpc req_ID method params) \<Rightarrow>
         if jsonrpc \<noteq> ''2.0'' \<or> method = []
         then (RPCResponse ''2.0'' id_absent None
                 (Some (rpcErr (- 32001) ''invalid json-rpc request'' ''INVALID_PARAMS'' False
                          no_details)),
               p, [])
         else dispatch w (RPCRequest jsonrpc req_ID method params) p)"

text \<open>
  The parts of an error response: the code, and the type and the retryable mark of its
  data.
\<close>

fun error_type :: "RPCResponse \<Rightarrow> string option" where
  "error_type (RPCResponse v i r (Some (RPCError c m (Some (ErrorData t rt d))))) = Some t"
| "error_type (RPCResponse v i r e) = None"

fun error_retryable :: "RPCResponse \<Rightarrow> bool option" where
  "error_retryable (RPCResponse v i r (Some (RPCError c m (Some (ErrorData t rt d))))) = Some rt"
| "error_retryable (RPCResponse v i r e) = None"

fun error_code :: "RPCResponse \<Rightarrow> int option" where
  "error_code (RPCResponse v i r (Some (RPCError c m d))) = Some c"
| "error_code (RPCResponse v i r None) = None"

section \<open>The terminal bridge (websocket.go)\<close>

text \<open>
  The part of \<open>TerminalHandler.ServeHTTP\<close> after the exec has started: two goroutines
  and the handler itself, which waits at \<open>\<open><-done\<close>\<close>.  Its deferred \<open>resp.Close()\<close> and
  \<open>conn.Close()\<close> run when the handler returns, and nowhere else.  The state records
  which goroutines still run, whether \<open>close(done)\<close> has been executed, whether the
  handler has returned, and what has been relayed.
\<close>

datatype goroutine = Running | Returned

record bridge =
  downstream :: goroutine
  upstream :: goroutine
  done_closed :: bool
  handler_returned :: bool
  to_client :: "bytes list"
  to_container :: "bytes list"

definition bridge_start :: bridge where
  "bridge_start =
     \<lparr>downstream = Running, upstream = Running, done_closed = False,
      handler_returned = False, to_client = [], to_container = []\<rparr>"

text \<open>
  What a blocking call hands back: bytes with a \<open>nil\<close> error, or an error.
  An event is one iteration of a loop, or the handler's receive:
  \<open>Reader_Read r ok\<close> is an iteration of the first goroutine, where
  \<open>resp.Reader.Read(buf)\<close> gives \<open>r\<close> and \<open>conn.WriteMessage\<close>, if called, succeeds
  iff \<open>ok\<close>; \<open>Conn_ReadMessage r ok\<close> is an iteration of the second, where
  \<open>conn.ReadMessage()\<close> gives \<open>r\<close> and \<open>resp.Conn.Write\<close>, if called, succeeds iff
  \<open>ok\<close>; \<open>Receive_done\<close> is the handler at \<open>\<open><-done\<close>\<close>, which proceeds only once the
  channel is closed.  A goroutine that has returned makes no further iteration.
\<close>

datatype io_result = Data bytes | Failed

datatype bridge_event =
    Reader_Read io_result bool
  | Conn_ReadMessage io_result bool
  | Receive_done

fun bridge_step :: "bridge_event \<Rightarrow> bridge \<Rightarrow> bridge" where
  "bridge_step (Reader_Read r ok) b =
    (if downstream b = Returned then b
     else (case r of
             Failed \<Rightarrow> b\<lparr>downstream := Returned, done_closed := True\<rparr>
           | Data chunk \<Rightarrow>
               if chunk = [] then b
               else if ok then b\<lparr>to_client := to_client b @ [chunk]\<rparr>
               else b\<lparr>downstream := Returned, done_closed := True\<rparr>))"
| "bridge_step (Conn_ReadMessage r ok) b =
    (if upstream b = Returned then b
     else (case r of
             Failed \<Rightarrow> b\<lparr>upstream := Returned\<rparr>
           | Data message \<Rightarrow>
               if ok then b\<lparr>to_container := to_container b @ [message]\<rparr>
               else b\<lparr>upstream := Returned\<rparr>))"
| "bridge_step Receive_done b =
    (if done_closed b then b\<lparr>handler_returned := True\<rparr> else b)"

fun bridge_run :: "bridge_event list \<Rightarrow> bridge \<Rightarrow> bridge" where
  "bridge_run [] b = b"
| "bridge_run (e # es) b = bridge_run es (bridge_step e b)"

section \<open>Runs of the server\<close>

text \<open>
  The entry points that main.go and \<open>NewDockerProvider\<close> expose: a request to \<open>/rpc\<close>,
  a tick of \<open>gcLoop\<close>, and the provider's own methods.  A run performs operations one
  after another, each in the world it meets, from a provider state and the history of
  events so far.
\<close>

datatype operation =
    Op_ServeHTTP request_body
  | Op_cleanupExpired
  | Op_Create string int
  | Op_Exec string "string list" string "(string \<times> string) list" int int
  | Op_Delete string

fun perform :: "world \<Rightarrow> operation \<Rightarrow> DockerProvider \<Rightarrow> DockerProvider \<times> event list" where
  "perform w (Op_ServeHTTP body) p = snd (ServeHTTP w body p)"
| "perform w Op_cleanupExpired p = cleanupExpired w p"
| "perform w (Op_Create template ttl) p = snd (Create w template ttl p)"
| "perform w (Op_Exec sid cmd cwd env maxOut maxErr) p =
     (p, snd (Exec w sid cmd cwd env maxOut maxErr p))"
| "perform w (Op_Delete sid) p = snd (Delete w sid p)"

fun run_ops :: "(world \<times> operation) list \<Rightarrow> DockerProvider \<times> event list
    \<Rightarrow> DockerProvider \<times> event list" where
  "run_ops [] s = s"
| "run_ops ((w, op) # ops) (p, h) =
     (case perform w op p of (p', ev) \<Rightarrow> run_ops ops (p', h @ ev))"

text \<open>
  A container id has been started successfully in a history when the history holds a
  \<open>ContainerCreate\<close> that returned it and a \<open>ContainerStart\<close> of it that returned \<open>nil\<close>.
\<close>

fun is_created :: "string \<Rightarrow> event \<Rightarrow> bool" where
  "is_created cid (Rt_ContainerCreate cfg hc name (Inr c)) = (c = cid)"
| "is_created cid e = False"

definition started_ok :: "event list \<Rightarrow> string \<Rightarrow> bool" where
  "started_ok h cid = (list_ex (is_created cid) h \<and> Rt_ContainerStart cid None \<in> set h)"

definition registry_started :: "event list \<Rightarrow> DockerProvider \<Rightarrow> bool" where
  "registry_started h p = list_all (\<lambda>(i, sb). started_ok h (ContainerID sb)) (sandboxes p)"

text \<open>
  Every write of a record into the map comes after the successful start of its container:
  the history is scanned from the left, \<open>seen\<close> being the events before the current one.
\<close>

fun stores_follow_start :: "event list \<Rightarrow> event list \<Rightarrow> bool" where
  "stores_follow_start seen [] = True"
| "stores_follow_start seen (Reg_store i sb # rest) =
     (started_ok seen (ContainerID sb) \<and> stores_follow_start (seen @ [Reg_store i sb]) rest)"
| "stores_follow_start seen (e # rest) = stores_follow_start (seen @ [e]) rest"

fun is_store :: "event \<Rightarrow> bool" where
  "is_store (Reg_store i sb) = True"
| "is_store e = False"

text \<open>
  A \<open>ContainerCreate\<close> call carries the configuration that \<open>Create\<close> builds, for the
  image of one of the templates; every other event passes.
\<close>

fun create_event_ok :: "event \<Rightarrow> bool" where
  "create_event_ok (Rt_ContainerCreate cfg hc name reply) =
     (hc = Create_hostConfig \<and> list_ex (\<lambda>(t, img). cfg = Create_config img) templates)"
| "create_event_ok e = True"

text \<open>
  The invariant of a run, on the state and the history: every record's container has
  been started, every write of a record follows the start of its container, every
  \<open>ContainerCreate\<close> call carries the configuration of \<open>Create\<close>, and the keys of the
  map are distinct.
\<close>

definition provider_inv :: "DockerProvider \<times> event list \<Rightarrow> bool" where
  "provider_inv s = (case s of (p, h) \<Rightarrow>
     registry_started h p \<and> stores_follow_start [] h \<and> list_all create_event_ok h
     \<and> distinct (map fst (sandboxes p)))"

section \<open>Example inputs\<close>

text \<open>
  A world in which every call of the runtime succeeds, one in which no container starts,
  one in which no container can be removed, a registered sandbox, and the raw parameters
  of three requests; the closed theorems below evaluate the model on them.
\<close>

definition world_ok :: world where
  "world_ok =
     \<lparr>ImageInspectWithRaw = (\<lambda>img. None),
      ImagePull = (\<lambda>img. None),
      ContainerCreate = (\<lambda>cfg hc name. Inr (''c-'' @ name)),
      ContainerStart = (\<lambda>cid. None),
      ContainerRemove = (\<lambda>cid force. None),
      ContainerExecCreate = (\<lambda>cid opts. Inr ''e1''),
      ContainerExecAttach = (\<lambda>eid. Inr []),
      ContainerExecInspect = (\<lambda>eid. Inr 0),
      uuid_New = ''0a1b2c3d-4e5f-4a6b-8c7d-9e0f1a2b3c4d'',
      time_Now = 100,
      time_Now_ServeHTTP = 101,
      time_Since = 7,
      ctx_DeadlineExceeded = False,
      Format_RFC3339 = (\<lambda>t. ''T'')\<rparr>"

definition world_nostart :: world where
  "world_nostart = world_ok\<lparr>ContainerStart := (\<lambda>cid. Some (RtError ''no such image'' False))\<rparr>"

definition world_noremove :: world where
  "world_noremove = world_ok\<lparr>ContainerRemove := (\<lambda>cid force. Some (RtError ''busy'' False))\<rparr>"

definition sandbox_a :: Sandbox where
  "sandbox_a =
     \<lparr>ID = ''aaaaaaaa'', ContainerID = ''c-a'', Template = ''python'', CreatedAt = 40,
      ExpiresAt = 100\<rparr>"

definition provider_a :: DockerProvider where
  "provider_a = \<lparr>sandboxes = [(''aaaaaaaa'', sandbox_a)]\<rparr>"

definition no_params :: RawMessage where
  "no_params =
     \<lparr>Unmarshal_CreateParams = None, Unmarshal_ExecParams = None,
      Unmarshal_DeleteParams = None\<rparr>"

definition params_create_ruby :: RawMessage where
  "params_create_ruby = no_params\<lparr>Unmarshal_CreateParams := Some (CreateParams ''ruby'' 0)\<rparr>"

definition params_delete_a :: RawMessage where
  "params_delete_a = no_params\<lparr>Unmarshal_DeleteParams := Some (DeleteParams ''aaaaaaaa'')\<rparr>"

section \<open>Properties of the sink and of the exec pipeline\<close>

text \<open>A write to the sink never returns an error, whatever the state of the sink.\<close>

lemma Write_never_fails: "snd (fst (Write p lw)) = None"
  by (simp add: Write_def Buffer_Write_def Let_def)

text \<open>
  The count a write reports: the whole length when the sink is already full or the bytes
  fit, and only the remaining capacity when the write crosses the limit.
\<close>

lemma Write_count:
  "fst (fst (Write p lw)) =
     (if Max lw \<le> Written lw \<or> int (length p) \<le> Max lw - Written lw
      then int (length p) else Max lw - Written lw)"
  by (auto simp add: Write_def Buffer_Write_def Let_def)

text \<open>
  The sink's invariant: \<open>Written\<close> is the length of the buffer and stays within
  \<open>Max\<close>.  It holds for a fresh sink with a non-negative limit and every write keeps it.
\<close>

lemma Write_keeps_bound:
  assumes "Written lw = int (length (W lw))" and "Written lw \<le> Max lw"
  shows "Written (snd (Write p lw)) = int (length (W (snd (Write p lw))))
       \<and> Written (snd (Write p lw)) \<le> Max (snd (Write p lw))
       \<and> Max (snd (Write p lw)) = Max lw"
  using assms by (auto simp add: Write_def Buffer_Write_def Let_def)

lemma StdCopy_from_keeps_bound:
  assumes "Written o1 = int (length (W o1))" and "Written o1 \<le> Max o1"
      and "Written e1 = int (length (W e1))" and "Written e1 \<le> Max e1"
      and "StdCopy_from n o1 e1 src = (r, o2, e2)"
  shows "int (length (W o2)) \<le> Max o1 \<and> int (length (W e2)) \<le> Max e1"
  using assms
proof (induction n o1 e1 src rule: StdCopy_from.induct)
  case (1 written dstout dsterr)
  then show ?case by simp
next
  case (2 written dstout dsterr stream payload rest)
  show ?case
  proof (cases "stream = Systemerr")
    case True
    with 2 show ?thesis by simp
  next
    case notsys: False
    show ?thesis
    proof (cases "stream = Stderr")
      case True
      obtain nw ew d' where w: "Write payload dsterr = ((nw, ew), d')"
        by (metis prod.exhaust)
      have k: "Written d' = int (length (W d')) \<and> Written d' \<le> Max d' \<and> Max d' = Max dsterr"
        using Write_keeps_bound [of dsterr payload] 2(5,6) w by simp
      show ?thesis
      proof (cases "ew \<noteq> None \<or> nw \<noteq> int (length payload)")
        case True
        with 2(3,4,7) notsys \<open>stream = Stderr\<close> w k show ?thesis
          by (auto split: if_splits)
      next
        case False
        then have rec: "StdCopy_from (written + nw) dstout d' rest = (r, o2, e2)"
          using 2(7) notsys \<open>stream = Stderr\<close> w by simp
        have "int (length (W o2)) \<le> Max dstout \<and> int (length (W e2)) \<le> Max d'"
          using 2(1) [OF notsys \<open>stream = Stderr\<close> w [symmetric] refl _ _ 2(3) 2(4) _ _ rec] False k
          by simp
        with k show ?thesis by simp
      qed
    next
      case nerr: False
      obtain nw ew d' where w: "Write payload dstout = ((nw, ew), d')"
        by (metis prod.exhaust)
      have k: "Written d' = int (length (W d')) \<and> Written d' \<le> Max d' \<and> Max d' = Max dstout"
        using Write_keeps_bound [of dstout payload] 2(3,4) w by simp
      show ?thesis
      proof (cases "ew \<noteq> None \<or> nw \<noteq> int (length payload)")
        case True
        with 2(5,6,7) notsys nerr w k show ?thesis
          by (auto split: if_splits)
      next
        case False
        then have rec: "StdCopy_from (written + nw) d' dsterr rest = (r, o2, e2)"
          using 2(7) notsys nerr w by simp
        have "int (length (W o2)) \<le> Max d' \<and> int (length (W e2)) \<le> Max dsterr"
          using 2(2) [OF notsys nerr w [symmetric] refl _ _ _ _ 2(5) 2(6) rec] False k
          by simp
        with k show ?thesis by simp
      qed
    qed
  qed
qed

text \<open>
  Whatever the stream, the captured output of \<open>Exec\<close> stays within the limits it was
  given, provided they are not negative (the handler passes limits between 1 and
  \<open>MaxOutputBytesCap\<close>).
\<close>

lemma Exec_output_bounded:
  assumes "0 \<le> maxOut" and "0 \<le> maxErr"
  shows "int (length (stdout (fst (Exec w sid cmd cwd env maxOut maxErr p)))) \<le> maxOut
       \<and> int (length (stderr (fst (Exec w sid cmd cwd env maxOut maxErr p)))) \<le> maxErr"
proof -
  have fresh: "\<And>m. Written (new_limitedWriter m) = int (length (W (new_limitedWriter m)))"
    by (simp add: new_limitedWriter_def)
  have copy: "int (length (W o2)) \<le> maxOut \<and> int (length (W e2)) \<le> maxErr"
    if "StdCopy (new_limitedWriter maxOut) (new_limitedWriter maxErr) src = (r, o2, e2)"
    for src r o2 e2
    using StdCopy_from_keeps_bound [OF fresh _ fresh _ that [unfolded StdCopy_def]] assms
    by (simp add: new_limitedWriter_def)
  show ?thesis
    using assms copy
    by (auto simp add: Exec_def Exec_failed_def Let_def
        split: option.splits sum.splits prod.splits)
qed

text \<open>
  Claim C2.  Every write that the demultiplexer routes to a limited sink is accepted
  without error and reported as fully consumed, so that the demultiplexer drains the
  stream to its end.  The code does not do this for the write that crosses the limit:
  a sink of capacity 4 that is offered 6 bytes keeps 4 of them, raises \<open>Truncated\<close>
  and reports a count of 4, not 6, with a \<open>nil\<close> error.
\<close>

theorem limitedWriter_Write_short_count:
  "Write ''abcdef'' (new_limitedWriter 4) =
     ((4, None), \<lparr>W = ''abcd'', Max = 4, Written = 4, Truncated = True\<rparr>)
   \<and> fst (fst (Write ''abcdef'' (new_limitedWriter 4))) \<noteq> int (length ''abcdef'')"
  by (simp add: Write_def new_limitedWriter_def Buffer_Write_def)

text \<open>
  Claim C3.  For every exec the returned streams stay within their limits, and a
  stream's truncation flag is raised exactly when the demultiplexed stream carried more
  bytes for it than its limit.  The bounds hold (\<open>Exec_output_bounded\<close>); the
  equivalence does not.  With both limits 1 and a stream of a two-byte stdout frame
  followed by a two-byte stderr frame, the short count of the first write ends the copy:
  stderr comes back empty and not flagged, although the stream carried two stderr bytes.
  With limit 4, a four-byte stdout frame followed by an empty one raises the stdout flag
  although the stream carried exactly four bytes.
\<close>

theorem Exec_truncation_flags_diverge:
  "(let src = [(Stdout, ''ab''), (Stderr, ''cd'')];
        r = fst (Exec (world_ok\<lparr>ContainerExecAttach := (\<lambda>eid. Inr src)\<rparr>)
                   ''aaaaaaaa'' [''sh''] [] [] 1 1 provider_a)
    in length (produced True src) = 2 \<and> stderr r = [] \<and> \<not> errTrunc r
       \<and> stdout r = ''a'' \<and> outTrunc r)
   \<and>
   (let src = [(Stdout, ''abcd''), (Stdout, [])];
        r = fst (Exec (world_ok\<lparr>ContainerExecAttach := (\<lambda>eid. Inr src)\<rparr>)
                   ''aaaaaaaa'' [''sh''] [] [] 4 4 provider_a)
    in length (produced False src) = 4 \<and> stdout r = ''abcd'' \<and> outTrunc r)"
  by (simp add: Exec_def world_ok_def provider_a_def sandbox_a_def StdCopy_def Write_def
      new_limitedWriter_def Buffer_Write_def produced_def Let_def)


section \<open>Properties of the handler\<close>

lemma templates_unknown:
  "map_of templates t = None \<longleftrightarrow> t \<notin> {''python'', ''node'', ''go''}"
  by (simp add: templates_def)

lemma Create_unknown_template:
  "t \<notin> {''python'', ''node'', ''go''} \<Longrightarrow> Create w t ttl p = (Inl (unknown_template t), p, [])"
  using templates_unknown [of t] by (simp add: Create_def)

lemma case_create_code:
  "error_code (fst (case_create w i params p)) \<noteq> Some (- 32601)"
  by (simp add: case_create_def invalid_params_def rpcErr_def Let_def
      split: option.splits CreateParams.splits prod.splits sum.splits)

lemma case_exec_code:
  "error_code (fst (case_exec w i params p)) \<noteq> Some (- 32601)"
  by (simp add: case_exec_def invalid_params_def rpcErr_def Let_def
      split: option.splits ExecParams.splits prod.splits)

lemma case_delete_code:
  "error_code (fst (case_delete w i params p)) \<noteq> Some (- 32601)"
  by (simp add: case_delete_def invalid_params_def rpcErr_def Let_def
      split: option.splits DeleteParams.splits prod.splits)

lemma dispatch_default:
  "method \<notin> {''sandbox.v1.create'', ''sandbox.v1.exec'', ''sandbox.v1.delete''} \<Longrightarrow>
   dispatch w (RPCRequest v i method params) p =
     (RPCResponse ''2.0'' i None (Some (RPCError (- 32601) ''method not found'' None)), p, [])"
  by (simp add: dispatch_def)

lemma dispatch_known:
  "dispatch w (RPCRequest v i ''sandbox.v1.create'' params) p = case_create w i params p"
  "dispatch w (RPCRequest v i ''sandbox.v1.exec'' params) p = case_exec w i params p"
  "dispatch w (RPCRequest v i ''sandbox.v1.delete'' params) p = case_delete w i params p"
  by (simp_all add: dispatch_def)

lemma ServeHTTP_wellformed:
  "method \<noteq> [] \<Longrightarrow>
   ServeHTTP w (Unmarshal_ok (RPCRequest ''2.0'' i method params)) p =
     dispatch w (RPCRequest ''2.0'' i method params) p"
  by (simp add: ServeHTTP_def)

text \<open>
  For a well-formed request the handler answers with code -32601 exactly when the method
  is none of the three names its switch knows.
\<close>

lemma ServeHTTP_method_not_found_iff:
  assumes "method \<noteq> []"
  shows "error_code (fst (ServeHTTP w (Unmarshal_ok (RPCRequest ''2.0'' i method params)) p))
           = Some (- 32601)
    \<longleftrightarrow> method \<notin> {''sandbox.v1.create'', ''sandbox.v1.exec'', ''sandbox.v1.delete''}"
proof (cases "method \<in> {''sandbox.v1.create'', ''sandbox.v1.exec'', ''sandbox.v1.delete''}")
  case True
  then consider "method = ''sandbox.v1.create''" | "method = ''sandbox.v1.exec''"
    | "method = ''sandbox.v1.delete''" by blast
  then have "error_code (fst (dispatch w (RPCRequest ''2.0'' i method params) p)) \<noteq> Some (- 32601)"
  proof cases
    case 1 then show ?thesis using case_create_code by (simp add: dispatch_known)
  next
    case 2 then show ?thesis using case_exec_code by (simp add: dispatch_known)
  next
    case 3 then show ?thesis using case_delete_code by (simp add: dispatch_known)
  qed
  with True show ?thesis by (simp only: ServeHTTP_wellformed [OF assms]) blast
next
  case False
  then show ?thesis
    by (simp only: ServeHTTP_wellformed [OF assms] dispatch_default [OF False]) simp
qed

text \<open>
  Claim C1.  Each of the six methods \<open>sandbox.v1.create\<close>, \<open>exec\<close>, \<open>writeFile\<close>,
  \<open>readFile\<close>, \<open>listDir\<close> and \<open>delete\<close> is dispatched to its operation, and only a
  method outside this set yields code -32601.  The switch of the handler has arms for
  \<open>create\<close>, \<open>exec\<close> and \<open>delete\<close> only: a well-formed request for any of the three
  file methods, whatever its id and parameters and whatever the state, falls to the
  default arm and is answered with -32601 ``method not found'', without any call of the
  provider.
\<close>

theorem file_methods_not_dispatched:
  "ServeHTTP w (Unmarshal_ok (RPCRequest ''2.0'' i ''sandbox.v1.writeFile'' params)) p =
     (RPCResponse ''2.0'' i None (Some (RPCError (- 32601) ''method not found'' None)), p, [])
 \<and> ServeHTTP w (Unmarshal_ok (RPCRequest ''2.0'' i ''sandbox.v1.readFile'' params)) p =
     (RPCResponse ''2.0'' i None (Some (RPCError (- 32601) ''method not found'' None)), p, [])
 \<and> ServeHTTP w (Unmarshal_ok (RPCRequest ''2.0'' i ''sandbox.v1.listDir'' params)) p =
     (RPCResponse ''2.0'' i None (Some (RPCError (- 32601) ''method not found'' None)), p, [])"
  by (simp add: ServeHTTP_def dispatch_def)

theorem file_methods_not_dispatched_witness:
  "error_code (fst (ServeHTTP world_ok
      (Unmarshal_ok (RPCRequest ''2.0'' (id_number 3) ''sandbox.v1.writeFile'' no_params))
      provider_a)) = Some (- 32601)"
  using file_methods_not_dispatched [of world_ok "id_number 3" no_params provider_a]
  by simp

text \<open>
  Claim C4, as the code has it.  A create request whose template is not one of
  \<open>python\<close>, \<open>node\<close>, \<open>go\<close> fails without any call of the runtime and without a change
  of state: with INVALID_PARAMS (code -32001, not retryable) when the template is empty,
  and otherwise with CONTAINER_CREATE_FAILED (code -32003), marked retryable, the detail
  being the provider's message ``unknown template''.
\<close>

theorem create_unknown_template:
  assumes "template \<notin> {''python'', ''node'', ''go''}"
      and "Unmarshal_CreateParams params = Some (CreateParams template ttlms)"
  shows "ServeHTTP w (Unmarshal_ok (RPCRequest ''2.0'' i ''sandbox.v1.create'' params)) p =
    (if template = []
     then (RPCResponse ''2.0'' i None
             (Some (rpcErr (- 32001) ''invalid params'' ''INVALID_PARAMS'' False no_details)),
           p, [])
     else (RPCResponse ''2.0'' i None
             (Some (rpcErr (- 32003) ''container create failed'' ''CONTAINER_CREATE_FAILED'' True
                      (details_err (''unknown template: '' @ template)))),
           p, []))"
  using assms(2) Create_unknown_template [OF assms(1)]
  by (simp add: ServeHTTP_def dispatch_def case_create_def invalid_params_def)

theorem create_unknown_template_witness:
  "''ruby'' \<notin> {''python'', ''node'', ''go''}
   \<and> Unmarshal_CreateParams params_create_ruby = Some (CreateParams ''ruby'' 0)
   \<and> ServeHTTP world_ok
        (Unmarshal_ok (RPCRequest ''2.0'' (id_number 1) ''sandbox.v1.create'' params_create_ruby))
        NewDockerProvider_state =
      (RPCResponse ''2.0'' (id_number 1) None
         (Some (rpcErr (- 32003) ''container create failed'' ''CONTAINER_CREATE_FAILED'' True
                  (details_err ''unknown template: ruby''))),
       NewDockerProvider_state, [])"
proof -
  have t: "''ruby'' \<notin> {''python'', ''node'', ''go''}" by simp
  have u: "Unmarshal_CreateParams params_create_ruby = Some (CreateParams ''ruby'' 0)"
    by (simp add: params_create_ruby_def no_params_def)
  show ?thesis
    using t u create_unknown_template [OF t u, of world_ok "id_number 1" NewDockerProvider_state]
    by simp
qed

text \<open>
  Claim C4 as stated fails: a create request for the template \<open>ruby\<close> is answered with
  the error type CONTAINER_CREATE_FAILED, marked retryable, not with INVALID_PARAMS.
\<close>

theorem unknown_template_counterexample:
  "''ruby'' \<notin> {''python'', ''node'', ''go''}
   \<and> error_type (fst (ServeHTTP world_ok
        (Unmarshal_ok (RPCRequest ''2.0'' (id_number 1) ''sandbox.v1.create'' params_create_ruby))
        NewDockerProvider_state)) = Some ''CONTAINER_CREATE_FAILED''
   \<and> error_type (fst (ServeHTTP world_ok
        (Unmarshal_ok (RPCRequest ''2.0'' (id_number 1) ''sandbox.v1.create'' params_create_ruby))
        NewDockerProvider_state)) \<noteq> Some ''INVALID_PARAMS''
   \<and> error_retryable (fst (ServeHTTP world_ok
        (Unmarshal_ok (RPCRequest ''2.0'' (id_number 1) ''sandbox.v1.create'' params_create_ruby))
        NewDockerProvider_state)) = Some True"
  by (simp add: ServeHTTP_def dispatch_def case_create_def params_create_ruby_def no_params_def
      Create_def templates_def rpcErr_def)

section \<open>Properties of delete\<close>

lemma map_of_delete_self: "map_of (AList.delete k al) k = None"
  by (simp add: delete_conv')

lemma Delete_locked_found:
  "map_of (sandboxes p) sid = Some sb \<Longrightarrow>
   Delete_locked sid p =
     (Some sb, p\<lparr>sandboxes := AList.delete sid (sandboxes p)\<rparr>, [Reg_delete sid])"
  by (simp add: Delete_locked_def)

lemma Delete_found:
  "map_of (sandboxes p) sid = Some sb \<Longrightarrow>
   Delete w sid p =
     ((case ContainerRemove w (ContainerID sb) True of
         Some e \<Rightarrow> Some (failed_to_remove_container e) | None \<Rightarrow> None),
      p\<lparr>sandboxes := AList.delete sid (sandboxes p)\<rparr>,
      [Reg_delete sid,
       Rt_ContainerRemove (ContainerID sb) True (ContainerRemove w (ContainerID sb) True)])"
  by (simp add: Delete_def Delete_locked_def Delete_unlocked_def Let_def)

lemma Delete_absent:
  "map_of (sandboxes p) sid = None \<Longrightarrow> Delete w sid p = (Some (sandbox_not_found sid), p, [])"
  by (simp add: Delete_def Delete_locked_def Delete_unlocked_def)

lemma Exec_absent:
  "map_of (sandboxes p) sid = None \<Longrightarrow>
   Exec w sid cmd cwd env maxOut maxErr p = (Exec_failed 0 (sandbox_not_found sid), [])"
  by (simp add: Exec_def)

lemma GetContainerID_absent:
  "map_of (sandboxes p) sid = None \<Longrightarrow> GetContainerID sid p = Inl (sandbox_not_found sid)"
  by (simp add: GetContainerID_def)

lemma ServeHTTP_delete:
  "Unmarshal_DeleteParams params = Some (DeleteParams sid) \<Longrightarrow> sid \<noteq> [] \<Longrightarrow>
   ServeHTTP w (Unmarshal_ok (RPCRequest ''2.0'' i ''sandbox.v1.delete'' params)) p =
     (case Delete w sid p of
        (Some e, p', ev) \<Rightarrow>
          (RPCResponse ''2.0'' i None
             (Some (rpcErr (- 32007) ''delete failed'' ''DELETE_FAILED'' True
                      (details_err (Error_string e)))), p', ev)
      | (None, p', ev) \<Rightarrow> (RPCResponse ''2.0'' i (Some (DeleteResult True)) None, p', ev))"
  by (simp add: ServeHTTP_def dispatch_def case_delete_def)

section \<open>Invariants of runs\<close>

lemma stores_follow_start_append:
  "stores_follow_start seen (a @ b) \<longleftrightarrow>
     stores_follow_start seen a \<and> stores_follow_start (seen @ a) b"
proof (induction a arbitrary: seen)
  case Nil
  then show ?case by simp
next
  case (Cons e a)
  then show ?case by (cases e) simp_all
qed

lemma started_ok_append: "started_ok h cid \<Longrightarrow> started_ok (h @ ev) cid"
  by (auto simp add: started_ok_def list_ex_iff)

lemma registry_started_append: "registry_started h p \<Longrightarrow> registry_started (h @ ev) p"
  by (auto simp add: registry_started_def list_all_iff started_ok_append)

lemma set_update_subset: "set (AList.update k v al) \<subseteq> insert (k, v) (set al)"
  by (induction al) auto

lemma set_delete_subset: "set (AList.delete k al) \<subseteq> set al"
  by (auto simp add: AList.delete_eq)

lemma list_all_update:
  "P (k, v) \<Longrightarrow> list_all P al \<Longrightarrow> list_all P (AList.update k v al)"
  using set_update_subset [of k v al] by (auto simp add: list_all_iff)

lemma list_all_delete: "list_all P al \<Longrightarrow> list_all P (AList.delete k al)"
  using set_delete_subset [of k al] by (auto simp add: list_all_iff)

lemma templates_img: "map_of templates t = Some img \<Longrightarrow> list_ex (\<lambda>(t, i). Create_config img = Create_config i) templates"
  by (auto simp add: templates_def list_ex_iff split: if_splits)


lemma Create_cases:
  assumes "Create w t ttl p = (r, p', ev)"
  shows "(\<exists>e. r = Inl e \<and> p' = p \<and> \<not> list_ex is_store ev \<and> list_all create_event_ok ev) \<or>
         (\<exists>sb pre cfg hc name.
            r = Inr (take 8 (uuid_New w), ExpiresAt sb)
          \<and> p' = p\<lparr>sandboxes := AList.update (take 8 (uuid_New w)) sb (sandboxes p)\<rparr>
          \<and> ev = pre @ [Rt_ContainerCreate cfg hc name (Inr (ContainerID sb)),
                         Rt_ContainerStart (ContainerID sb) None,
                         Reg_store (take 8 (uuid_New w)) sb]
          \<and> \<not> list_ex is_store pre \<and> list_all create_event_ok pre
          \<and> create_event_ok (Rt_ContainerCreate cfg hc name (Inr (ContainerID sb))))"
proof (cases "map_of templates t")
  case None
  with assms show ?thesis by (auto simp add: Create_def)
next
  case (Some img)
  note ok = templates_img [OF Some]
  define pre where "pre = Rt_ImageInspectWithRaw img (ImageInspectWithRaw w img) #
     (if ImageInspectWithRaw w img \<noteq> None then [Rt_ImagePull img (ImagePull w img)] else [])"
  have pre: "\<not> list_ex is_store pre" "list_all create_event_ok pre"
    by (simp_all add: pre_def)
  show ?thesis
  proof (cases "ImageInspectWithRaw w img \<noteq> None \<and> ImagePull w img \<noteq> None")
    case True
    with assms Some show ?thesis
      by (auto simp add: Create_def Let_def split: option.splits if_splits)
  next
    case nopull: False
    show ?thesis
    proof (cases "ContainerCreate w (Create_config img) Create_hostConfig (''sandbox-'' @ take 8 (uuid_New w))")
      case (Inl e)
      with assms Some nopull ok show ?thesis
        by (auto simp add: Create_def Let_def split: option.splits if_splits)
    next
      case (Inr cid)
      show ?thesis
      proof (cases "ContainerStart w cid")
        case (Some e)
        with assms \<open>map_of templates t = Some img\<close> nopull ok Inr show ?thesis
          by (auto simp add: Create_def Let_def split: option.splits if_splits)
      next
        case None
        let ?sb = "\<lparr>ID = take 8 (uuid_New w), ContainerID = cid, Template = t,
                    CreatedAt = time_Now w, ExpiresAt = time_Now w + ttl\<rparr>"
        have "r = Inr (take 8 (uuid_New w), ExpiresAt ?sb)
          \<and> p' = p\<lparr>sandboxes := AList.update (take 8 (uuid_New w)) ?sb (sandboxes p)\<rparr>
          \<and> ev = pre @ [Rt_ContainerCreate (Create_config img) Create_hostConfig
                           (''sandbox-'' @ take 8 (uuid_New w)) (Inr (ContainerID ?sb)),
                         Rt_ContainerStart (ContainerID ?sb) None,
                         Reg_store (take 8 (uuid_New w)) ?sb]"
          using assms \<open>map_of templates t = Some img\<close> nopull Inr None
          by (auto simp add: Create_def Let_def pre_def split: option.splits if_splits)
        moreover have "create_event_ok (Rt_ContainerCreate (Create_config img) Create_hostConfig
                           (''sandbox-'' @ take 8 (uuid_New w)) (Inr (ContainerID ?sb)))"
          using ok by simp
        ultimately show ?thesis using pre by blast
      qed
    qed
  qed
qed

lemma no_store_follow: "\<not> list_ex is_store ev \<Longrightarrow> stores_follow_start seen ev"
proof (induction ev arbitrary: seen)
  case Nil
  then show ?case by simp
next
  case (Cons e ev)
  then show ?case by (cases e) simp_all
qed

lemma registry_started_update:
  "registry_started h p \<Longrightarrow> started_ok h (ContainerID sb) \<Longrightarrow>
   registry_started h (p\<lparr>sandboxes := AList.update k sb (sandboxes p)\<rparr>)"
  by (simp add: registry_started_def list_all_update)

lemma registry_started_delete:
  "registry_started h p \<Longrightarrow> registry_started h (p\<lparr>sandboxes := AList.delete k (sandboxes p)\<rparr>)"
  by (simp add: registry_started_def list_all_delete)

lemma Create_keeps:
  assumes inv: "provider_inv (p, h)" and c: "Create w t ttl p = (r, p', ev)"
  shows "provider_inv (p', h @ ev)"
  using Create_cases [OF c]
proof (elim disjE exE conjE)
  fix e
  assume "p' = p" "\<not> list_ex is_store ev" "list_all create_event_ok ev"
  with inv show ?thesis
    by (simp add: provider_inv_def stores_follow_start_append registry_started_append no_store_follow)
next
  fix sb pre cfg hc name
  assume p': "p' = p\<lparr>sandboxes := AList.update (take 8 (uuid_New w)) sb (sandboxes p)\<rparr>"
    and ev: "ev = pre @ [Rt_ContainerCreate cfg hc name (Inr (ContainerID sb)),
                         Rt_ContainerStart (ContainerID sb) None,
                         Reg_store (take 8 (uuid_New w)) sb]"
    and pre: "\<not> list_ex is_store pre" "list_all create_event_ok pre"
    and okc: "create_event_ok (Rt_ContainerCreate cfg hc name (Inr (ContainerID sb)))"
  have st: "started_ok (h @ ev) (ContainerID sb)"
    by (simp add: started_ok_def ev)
  have st2: "started_ok ((h @ pre) @ [Rt_ContainerCreate cfg hc name (Inr (ContainerID sb)),
                         Rt_ContainerStart (ContainerID sb) None]) (ContainerID sb)"
    by (simp add: started_ok_def)
  have "registry_started (h @ ev) p'"
    unfolding p' using inv st
    by (intro registry_started_update registry_started_append) (simp_all add: provider_inv_def)
  moreover have "stores_follow_start [] (h @ ev)"
    using inv pre st2
    by (simp add: provider_inv_def ev stores_follow_start_append no_store_follow)
  moreover have "list_all create_event_ok (h @ ev)"
    using inv pre okc by (simp add: provider_inv_def ev)
  moreover have "distinct (map fst (sandboxes p'))"
    using inv by (simp add: provider_inv_def p' distinct_update)
  ultimately show ?thesis by (simp add: provider_inv_def)
qed


lemma Delete_cases:
  assumes "Delete w sid p = (e, p', ev)"
  shows "(p' = p \<or> p' = p\<lparr>sandboxes := AList.delete sid (sandboxes p)\<rparr>)
       \<and> \<not> list_ex is_store ev \<and> list_all create_event_ok ev"
  using assms
  by (auto simp add: Delete_def Delete_locked_def Delete_unlocked_def Let_def
      split: option.splits)

lemma Delete_keeps:
  assumes inv: "provider_inv (p, h)" and d: "Delete w sid p = (e, p', ev)"
  shows "provider_inv (p', h @ ev)"
  using Delete_cases [OF d] inv
  by (auto simp add: provider_inv_def stores_follow_start_append registry_started_append
      no_store_follow registry_started_delete distinct_delete)

lemma Delete_each_keeps:
  "provider_inv (p, h) \<Longrightarrow> Delete_each w ids p = (p', ev) \<Longrightarrow> provider_inv (p', h @ ev)"
proof (induction ids arbitrary: p h p' ev)
  case Nil
  then show ?case by simp
next
  case (Cons i ids)
  obtain e p1 ev1 where d: "Delete w i p = (e, p1, ev1)"
    by (metis prod.exhaust)
  obtain p2 ev2 where r: "Delete_each w ids p1 = (p2, ev2)"
    by (metis prod.exhaust)
  from Cons.prems(2) d r have eq: "p' = p2" "ev = ev1 @ ev2" by simp_all
  have "provider_inv (p1, h @ ev1)" using Delete_keeps [OF Cons.prems(1) d] .
  from Cons.IH [OF this r] show ?case by (simp add: eq)
qed

lemma Exec_events:
  "\<not> list_ex is_store (snd (Exec w sid cmd cwd env mo me p))
   \<and> list_all create_event_ok (snd (Exec w sid cmd cwd env mo me p))"
  by (simp add: Exec_def Let_def split: option.splits sum.splits prod.splits)

lemma quiet_keeps:
  "provider_inv (p, h) \<Longrightarrow> \<not> list_ex is_store ev \<Longrightarrow> list_all create_event_ok ev \<Longrightarrow> provider_inv (p, h @ ev)"
  by (simp add: provider_inv_def stores_follow_start_append registry_started_append no_store_follow)

lemma case_create_effect:
  "snd (case_create w i params p) = (p, []) \<or>
   (\<exists>t ttl. snd (case_create w i params p) = snd (Create w t ttl p))"
proof (cases "Unmarshal_CreateParams params")
  case None
  then show ?thesis by (simp add: case_create_def)
next
  case (Some cp)
  obtain t ms where cp: "cp = CreateParams t ms" by (cases cp)
  show ?thesis
  proof (cases "t = []")
    case True
    with Some cp show ?thesis by (simp add: case_create_def)
  next
    case False
    have "snd (case_create w i params p) =
          snd (Create w t (if ms \<le> 0 then 10 * 60 * 1000000000 else Duration_of_ms ms) p)"
      using Some cp False
      by (simp add: case_create_def Let_def split: prod.splits sum.splits)
    then show ?thesis by blast
  qed
qed

lemma case_exec_effect:
  "snd (case_exec w i params p) = (p, []) \<or>
   (\<exists>sid cmd cwd env mo me. snd (case_exec w i params p) = (p, snd (Exec w sid cmd cwd env mo me p)))"
proof (cases "Unmarshal_ExecParams params")
  case None
  then show ?thesis by (simp add: case_exec_def)
next
  case (Some ep)
  obtain sid cmd cwd env t mo me where ep: "ep = ExecParams sid cmd cwd env t mo me"
    by (cases ep)
  show ?thesis
  proof (cases "sid = [] \<or> cmd = []")
    case True
    with Some ep show ?thesis by (auto simp add: case_exec_def)
  next
    case False
    have "snd (case_exec w i params p) =
          (p, snd (Exec w sid cmd cwd env
                     (defaulted_capped mo DefaultStdoutBytes MaxOutputBytesCap)
                     (defaulted_capped me DefaultStderrBytes MaxOutputBytesCap) p))"
      using Some ep False
      by (simp add: case_exec_def Let_def split: prod.splits option.splits)
    then show ?thesis by blast
  qed
qed

lemma case_delete_effect:
  "snd (case_delete w i params p) = (p, []) \<or>
   (\<exists>sid. snd (case_delete w i params p) = snd (Delete w sid p))"
proof (cases "Unmarshal_DeleteParams params")
  case None
  then show ?thesis by (simp add: case_delete_def)
next
  case (Some dp)
  obtain sid where dp: "dp = DeleteParams sid" by (cases dp)
  show ?thesis
  proof (cases "sid = []")
    case True
    with Some dp show ?thesis by (simp add: case_delete_def)
  next
    case False
    have "snd (case_delete w i params p) = snd (Delete w sid p)"
      using Some dp False
      by (simp add: case_delete_def split: prod.splits option.splits)
    then show ?thesis by blast
  qed
qed

lemma ServeHTTP_effect:
  "snd (ServeHTTP w body p) = (p, [])
   \<or> (\<exists>t ttl. snd (ServeHTTP w body p) = snd (Create w t ttl p))
   \<or> (\<exists>sid cmd cwd env mo me. snd (ServeHTTP w body p) = (p, snd (Exec w sid cmd cwd env mo me p)))
   \<or> (\<exists>sid. snd (ServeHTTP w body p) = snd (Delete w sid p))"
proof (cases body)
  case ReadAll_failed
  then show ?thesis by (simp add: ServeHTTP_def)
next
  case Unmarshal_failed
  then show ?thesis by (simp add: ServeHTTP_def)
next
  case (Unmarshal_ok req)
  obtain v i m params where req: "req = RPCRequest v i m params" by (cases req)
  show ?thesis
  proof (cases "v \<noteq> ''2.0'' \<or> m = []")
    case True
    with Unmarshal_ok req show ?thesis by (auto simp add: ServeHTTP_def)
  next
    case False
    then have s: "ServeHTTP w body p = dispatch w (RPCRequest v i m params) p"
      using Unmarshal_ok req by (simp add: ServeHTTP_def)
    consider "m = ''sandbox.v1.create''" | "m = ''sandbox.v1.exec''" | "m = ''sandbox.v1.delete''"
      | "m \<notin> {''sandbox.v1.create'', ''sandbox.v1.exec'', ''sandbox.v1.delete''}" by blast
    then show ?thesis
    proof cases
      case 1
      then show ?thesis using case_create_effect [of w i params p]
        by (simp only: s dispatch_known) blast
    next
      case 2
      then show ?thesis using case_exec_effect [of w i params p]
        by (simp only: s dispatch_known) blast
    next
      case 3
      then show ?thesis using case_delete_effect [of w i params p]
        by (simp only: s dispatch_known) blast
    next
      case 4
      then show ?thesis by (simp only: s dispatch_default [OF 4]) simp
    qed
  qed
qed

lemma perform_keeps:
  assumes inv: "provider_inv (p, h)" and pf: "perform w op p = (p', ev)"
  shows "provider_inv (p', h @ ev)"
proof (cases op)
  case (Op_ServeHTTP body)
  with pf have s: "snd (ServeHTTP w body p) = (p', ev)" by simp
  from ServeHTTP_effect [of w body p] show ?thesis
  proof (elim disjE exE)
    assume "snd (ServeHTTP w body p) = (p, [])"
    with s inv show ?thesis by simp
  next
    fix t ttl assume "snd (ServeHTTP w body p) = snd (Create w t ttl p)"
    with s have "Create w t ttl p = (fst (Create w t ttl p), p', ev)"
      by (metis prod.collapse)
    from Create_keeps [OF inv this] show ?thesis .
  next
    fix sid cmd cwd env mo me
    assume "snd (ServeHTTP w body p) = (p, snd (Exec w sid cmd cwd env mo me p))"
    with s have "p' = p" "ev = snd (Exec w sid cmd cwd env mo me p)" by auto
    with inv Exec_events [of w sid cmd cwd env mo me p] show ?thesis
      by (simp add: quiet_keeps)
  next
    fix sid assume "snd (ServeHTTP w body p) = snd (Delete w sid p)"
    with s have "Delete w sid p = (fst (Delete w sid p), p', ev)"
      by (metis prod.collapse)
    from Delete_keeps [OF inv this] show ?thesis .
  qed
next
  case Op_cleanupExpired
  with pf have "Delete_each w (toDelete (time_Now w) p) p = (p', ev)"
    by (simp add: cleanupExpired_def)
  from Delete_each_keeps [OF inv this] show ?thesis .
next
  case (Op_Create t ttl)
  with pf have "Create w t ttl p = (fst (Create w t ttl p), p', ev)"
    by (metis perform.simps(3) prod.collapse)
  from Create_keeps [OF inv this] show ?thesis .
next
  case (Op_Exec sid cmd cwd env mo me)
  with pf have "p' = p" "ev = snd (Exec w sid cmd cwd env mo me p)" by auto
  with inv Exec_events [of w sid cmd cwd env mo me p] show ?thesis
    by (simp add: quiet_keeps)
next
  case (Op_Delete sid)
  with pf have "Delete w sid p = (fst (Delete w sid p), p', ev)"
    by (metis perform.simps(5) prod.collapse)
  from Delete_keeps [OF inv this] show ?thesis .
qed

lemma run_ops_keeps: "provider_inv s \<Longrightarrow> provider_inv (run_ops ops s)"
proof (induction ops arbitrary: s)
  case Nil
  then show ?case by simp
next
  case (Cons a ops)
  obtain w op where a: "a = (w, op)" by (cases a)
  obtain p h where s: "s = (p, h)" by (cases s)
  obtain p' ev where pf: "perform w op p = (p', ev)" by (metis prod.exhaust)
  have "provider_inv (p', h @ ev)" using perform_keeps [OF Cons.prems [unfolded s] pf] .
  from Cons.IH [OF this] show ?case by (simp add: a s pf)
qed

lemma provider_inv_start: "provider_inv (NewDockerProvider_state, [])"
  by (simp add: provider_inv_def NewDockerProvider_state_def registry_started_def)

lemma Create_absent:
  assumes "map_of (sandboxes p) k = None" and "take 8 (uuid_New w) \<noteq> k"
  shows "map_of (sandboxes (fst (snd (Create w t ttl p)))) k = None"
proof -
  obtain r p' ev where c: "Create w t ttl p = (r, p', ev)"
    by (metis prod.exhaust)
  from Create_cases [OF c] assms show ?thesis
    by (auto simp add: c update_conv')
qed

lemma Delete_absent_other:
  assumes "map_of (sandboxes p) k = None"
  shows "map_of (sandboxes (fst (snd (Delete w sid p)))) k = None"
proof -
  obtain e p' ev where d: "Delete w sid p = (e, p', ev)"
    by (metis prod.exhaust)
  from Delete_cases [OF d] assms show ?thesis
    by (auto simp add: d delete_conv')
qed

lemma Delete_each_absent:
  "map_of (sandboxes p) k = None \<Longrightarrow> map_of (sandboxes (fst (Delete_each w ids p))) k = None"
proof (induction ids arbitrary: p)
  case Nil
  then show ?case by simp
next
  case (Cons i ids)
  obtain e p1 ev1 where d: "Delete w i p = (e, p1, ev1)"
    by (metis prod.exhaust)
  obtain p2 ev2 where r: "Delete_each w ids p1 = (p2, ev2)"
    by (metis prod.exhaust)
  have "map_of (sandboxes p1) k = None"
    using Delete_absent_other [OF Cons.prems, of w i] by (simp add: d)
  from Cons.IH [OF this] show ?case by (simp add: d r)
qed

lemma perform_absent:
  assumes a: "map_of (sandboxes p) k = None" and u: "take 8 (uuid_New w) \<noteq> k"
  shows "map_of (sandboxes (fst (perform w op p))) k = None"
proof (cases op)
  case (Op_ServeHTTP body)
  from ServeHTTP_effect [of w body p] show ?thesis
  proof (elim disjE exE)
    assume "snd (ServeHTTP w body p) = (p, [])"
    then show ?thesis using a by (simp add: Op_ServeHTTP)
  next
    fix t ttl assume "snd (ServeHTTP w body p) = snd (Create w t ttl p)"
    then show ?thesis using Create_absent [OF a u, of t ttl] by (simp add: Op_ServeHTTP)
  next
    fix sid cmd cwd env mo me
    assume "snd (ServeHTTP w body p) = (p, snd (Exec w sid cmd cwd env mo me p))"
    then show ?thesis using a by (simp add: Op_ServeHTTP)
  next
    fix sid assume "snd (ServeHTTP w body p) = snd (Delete w sid p)"
    then show ?thesis using Delete_absent_other [OF a, of w sid] by (simp add: Op_ServeHTTP)
  qed
next
  case Op_cleanupExpired
  then show ?thesis using Delete_each_absent [OF a] by (simp add: cleanupExpired_def)
next
  case (Op_Create t ttl)
  then show ?thesis using Create_absent [OF a u, of t ttl] by simp
next
  case (Op_Exec sid cmd cwd env mo me)
  then show ?thesis using a by simp
next
  case (Op_Delete sid)
  then show ?thesis using Delete_absent_other [OF a, of w sid] by simp
qed

lemma not_found_persists:
  assumes "map_of (sandboxes p) k = None"
      and "\<forall>(w, op) \<in> set ops. take 8 (uuid_New w) \<noteq> k"
  shows "map_of (sandboxes (fst (run_ops ops (p, h)))) k = None"
  using assms
proof (induction ops arbitrary: p h)
  case Nil
  then show ?case by simp
next
  case (Cons a ops)
  obtain w op where a: "a = (w, op)" by (cases a)
  obtain p' ev where pf: "perform w op p = (p', ev)" by (metis prod.exhaust)
  have "map_of (sandboxes p') k = None"
    using perform_absent [OF Cons.prems(1), of w op] Cons.prems(2) by (simp add: a pf)
  from Cons.IH [OF this, of "h @ ev"] Cons.prems(2) show ?case
    by (simp add: a pf)
qed

lemma Delete_each_events:
  "\<not> list_ex is_store (snd (Delete_each w ids p))
   \<and> list_all create_event_ok (snd (Delete_each w ids p))"
proof (induction ids arbitrary: p)
  case Nil
  then show ?case by simp
next
  case (Cons i ids)
  obtain e p1 ev1 where d: "Delete w i p = (e, p1, ev1)"
    by (metis prod.exhaust)
  obtain p2 ev2 where r: "Delete_each w ids p1 = (p2, ev2)"
    by (metis prod.exhaust)
  from Delete_cases [OF d] Cons.IH [of p1] r show ?case
    by (simp add: d)
qed

lemma Create_events:
  "list_all create_event_ok (snd (snd (Create w t ttl p)))"
proof -
  obtain r p' ev where c: "Create w t ttl p = (r, p', ev)"
    by (metis prod.exhaust)
  from Create_cases [OF c] show ?thesis
    by (auto simp add: c)
qed

lemma Delete_events:
  "list_all create_event_ok (snd (snd (Delete w sid p)))"
proof -
  obtain e p' ev where d: "Delete w sid p = (e, p', ev)"
    by (metis prod.exhaust)
  from Delete_cases [OF d] show ?thesis
    by (simp add: d)
qed

lemma perform_events: "list_all create_event_ok (snd (perform w op p))"
proof (cases op)
  case (Op_ServeHTTP body)
  from ServeHTTP_effect [of w body p] show ?thesis
  proof (elim disjE exE)
    assume "snd (ServeHTTP w body p) = (p, [])"
    then show ?thesis by (simp add: Op_ServeHTTP)
  next
    fix t ttl assume "snd (ServeHTTP w body p) = snd (Create w t ttl p)"
    then show ?thesis using Create_events [of w t ttl p] by (simp add: Op_ServeHTTP)
  next
    fix sid cmd cwd env mo me
    assume "snd (ServeHTTP w body p) = (p, snd (Exec w sid cmd cwd env mo me p))"
    then show ?thesis using Exec_events [of w sid cmd cwd env mo me p]
      by (simp add: Op_ServeHTTP)
  next
    fix sid assume "snd (ServeHTTP w body p) = snd (Delete w sid p)"
    then show ?thesis using Delete_events [of w sid p] by (simp add: Op_ServeHTTP)
  qed
next
  case Op_cleanupExpired
  then show ?thesis using Delete_each_events [of w "toDelete (time_Now w) p" p]
    by (simp add: cleanupExpired_def)
next
  case (Op_Create t ttl)
  then show ?thesis using Create_events [of w t ttl p] by simp
next
  case (Op_Exec sid cmd cwd env mo me)
  then show ?thesis using Exec_events [of w sid cmd cwd env mo me p] by simp
next
  case (Op_Delete sid)
  then show ?thesis using Delete_events [of w sid p] by simp
qed

lemma Create_start_failed:
  assumes "Create w t ttl p = (Inl (failed_to_start_container se), p', ev)"
  shows "\<exists>pre cfg hc name cid.
           ev = pre @ [Rt_ContainerCreate cfg hc name (Inr cid),
                       Rt_ContainerStart cid (Some se),
                       Rt_ContainerRemove cid True (ContainerRemove w cid True)]"
proof (cases "map_of templates t")
  case None
  with assms show ?thesis by (simp add: Create_def)
next
  case (Some img)
  define pre where "pre = Rt_ImageInspectWithRaw img (ImageInspectWithRaw w img) #
     (if ImageInspectWithRaw w img \<noteq> None then [Rt_ImagePull img (ImagePull w img)] else [])"
  let ?name = "''sandbox-'' @ take 8 (uuid_New w)"
  show ?thesis
  proof (cases "ContainerCreate w (Create_config img) Create_hostConfig ?name")
    case (Inl e)
    with assms Some show ?thesis
      by (auto simp add: Create_def Let_def split: option.splits if_splits)
  next
    case (Inr cid)
    have "ev = pre @ [Rt_ContainerCreate (Create_config img) Create_hostConfig ?name (Inr cid),
                       Rt_ContainerStart cid (Some se),
                       Rt_ContainerRemove cid True (ContainerRemove w cid True)]"
      using assms Some Inr
      by (auto simp add: Create_def Let_def pre_def split: option.splits if_splits)
    then show ?thesis by blast
  qed
qed

lemma Create_ok_value:
  "Create world_ok ''python'' 5 NewDockerProvider_state =
     (Inr (''0a1b2c3d'', 105),
      \<lparr>sandboxes = [(''0a1b2c3d'',
          \<lparr>ID = ''0a1b2c3d'', ContainerID = ''c-sandbox-0a1b2c3d'', Template = ''python'',
           CreatedAt = 100, ExpiresAt = 105\<rparr>)]\<rparr>,
      [Rt_ImageInspectWithRaw ''python:3.11-slim'' None,
       Rt_ContainerCreate (Create_config ''python:3.11-slim'') Create_hostConfig
         ''sandbox-0a1b2c3d'' (Inr ''c-sandbox-0a1b2c3d''),
       Rt_ContainerStart ''c-sandbox-0a1b2c3d'' None,
       Reg_store ''0a1b2c3d''
          \<lparr>ID = ''0a1b2c3d'', ContainerID = ''c-sandbox-0a1b2c3d'', Template = ''python'',
           CreatedAt = 100, ExpiresAt = 105\<rparr>])"
  by (simp add: Create_def world_ok_def templates_def NewDockerProvider_state_def Let_def)

lemma Create_nostart_value:
  "Create world_nostart ''go'' 5 provider_a =
     (Inl (failed_to_start_container (RtError ''no such image'' False)), provider_a,
      [Rt_ImageInspectWithRaw ''golang:1.22-alpine'' None,
       Rt_ContainerCreate (Create_config ''golang:1.22-alpine'') Create_hostConfig
         ''sandbox-0a1b2c3d'' (Inr ''c-sandbox-0a1b2c3d''),
       Rt_ContainerStart ''c-sandbox-0a1b2c3d'' (Some (RtError ''no such image'' False)),
       Rt_ContainerRemove ''c-sandbox-0a1b2c3d'' True None])"
  by (simp add: Create_def world_nostart_def world_ok_def templates_def Let_def)

text \<open>
  Claim C6.  \<open>Create\<close> writes a record into the map only as its last step, after
  \<open>ContainerCreate\<close> has returned the container and \<open>ContainerStart\<close> has returned no
  error for it; when \<open>Create\<close> fails it leaves the map as it was and writes nothing, and
  when it fails because the start failed, its last call is the forced removal of the
  container it had created.  Hence, in every run of the server from its initial state,
  every record in the map belongs to a container that has been created and started
  successfully, and every write of a record comes after that start.
\<close>

theorem registry_records_started:
  "(case Create w template ttl p of
      (Inr (sid, exp), p', ev) \<Rightarrow>
        (\<exists>sb pre cfg hc name.
           ev = pre @ [Rt_ContainerCreate cfg hc name (Inr (ContainerID sb)),
                       Rt_ContainerStart (ContainerID sb) None,
                       Reg_store sid sb]
         \<and> \<not> list_ex is_store pre
         \<and> p' = p\<lparr>sandboxes := AList.update sid sb (sandboxes p)\<rparr>)
    | (Inl e, p', ev) \<Rightarrow>
        p' = p \<and> \<not> list_ex is_store ev \<and>
        (case e of
           failed_to_start_container se \<Rightarrow>
             (\<exists>pre cfg hc name cid.
                ev = pre @ [Rt_ContainerCreate cfg hc name (Inr cid),
                            Rt_ContainerStart cid (Some se),
                            Rt_ContainerRemove cid True (ContainerRemove w cid True)])
         | _ \<Rightarrow> True))
   \<and> (case run_ops ops (NewDockerProvider_state, []) of
        (q, h) \<Rightarrow> registry_started h q \<and> stores_follow_start [] h)"
proof
  obtain r p' ev where c: "Create w template ttl p = (r, p', ev)"
    by (metis prod.exhaust)
  show "case Create w template ttl p of
      (Inr (sid, exp), p', ev) \<Rightarrow>
        (\<exists>sb pre cfg hc name.
           ev = pre @ [Rt_ContainerCreate cfg hc name (Inr (ContainerID sb)),
                       Rt_ContainerStart (ContainerID sb) None,
                       Reg_store sid sb]
         \<and> \<not> list_ex is_store pre
         \<and> p' = p\<lparr>sandboxes := AList.update sid sb (sandboxes p)\<rparr>)
    | (Inl e, p', ev) \<Rightarrow>
        p' = p \<and> \<not> list_ex is_store ev \<and>
        (case e of
           failed_to_start_container se \<Rightarrow>
             (\<exists>pre cfg hc name cid.
                ev = pre @ [Rt_ContainerCreate cfg hc name (Inr cid),
                            Rt_ContainerStart cid (Some se),
                            Rt_ContainerRemove cid True (ContainerRemove w cid True)])
         | _ \<Rightarrow> True)"
  proof (cases r)
    case (Inl e)
    from Create_cases [OF c] Inl have same: "p' = p" "\<not> list_ex is_store ev"
      by auto
    have "\<exists>pre cfg hc name cid.
                ev = pre @ [Rt_ContainerCreate cfg hc name (Inr cid),
                            Rt_ContainerStart cid (Some se),
                            Rt_ContainerRemove cid True (ContainerRemove w cid True)]"
      if "e = failed_to_start_container se" for se
      using Create_start_failed [of w template ttl p se p' ev] c Inl that by simp
    with same show ?thesis
      by (simp add: c Inl split: error.splits)
  next
    case (Inr pr)
    from Create_cases [OF c] Inr show ?thesis
      by (auto simp add: c)
  qed
next
  have "provider_inv (run_ops ops (NewDockerProvider_state, []))"
    using provider_inv_start by (rule run_ops_keeps)
  then show "case run_ops ops (NewDockerProvider_state, []) of
        (q, h) \<Rightarrow> registry_started h q \<and> stores_follow_start [] h"
    by (simp add: provider_inv_def split: prod.splits)
qed

theorem registry_records_started_witness:
  "fst (Create world_nostart ''go'' 5 provider_a) =
      Inl (failed_to_start_container (RtError ''no such image'' False))
   \<and> fst (snd (Create world_nostart ''go'' 5 provider_a)) = provider_a
   \<and> (\<exists>pre cfg hc name cid.
        snd (snd (Create world_nostart ''go'' 5 provider_a)) =
          pre @ [Rt_ContainerCreate cfg hc name (Inr cid),
                 Rt_ContainerStart cid (Some (RtError ''no such image'' False)),
                 Rt_ContainerRemove cid True (ContainerRemove world_nostart cid True)])
   \<and> sandboxes (fst (run_ops [(world_ok, Op_Create ''python'' 5)] (NewDockerProvider_state, []))) \<noteq> []
   \<and> registry_started
        (snd (run_ops [(world_ok, Op_Create ''python'' 5)] (NewDockerProvider_state, [])))
        (fst (run_ops [(world_ok, Op_Create ''python'' 5)] (NewDockerProvider_state, [])))"
  using registry_records_started
          [where w = world_nostart and template = "''go''" and ttl = 5 and p = provider_a
             and ops = "[(world_ok, Op_Create ''python'' 5)]"]
  by (simp add: Create_nostart_value Create_ok_value)

text \<open>
  Claim C8.  Whatever operation the server performs, in whatever state and world, each
  call of \<open>ContainerCreate\<close> it makes carries exactly the configuration of \<open>Create\<close>:
  the command \<open>sleep infinity\<close>, the working directory \<open>/workspace\<close>, stdin open and
  attached, no TTY, all capabilities dropped, network mode \<open>none\<close>, the option
  \<open>no-new-privileges\<close>, 512 MiB of memory with the swap limit equal to it, a CPU quota
  of 50000 in a period of 100000, and at most 100 processes, for the image of one of the
  templates.
\<close>

theorem created_containers_posture:
  assumes "Rt_ContainerCreate cfg hc name reply \<in> set (snd (perform w op p))"
  shows "Cmd cfg = [''sleep'', ''infinity''] \<and> WorkingDir cfg = ''/workspace''
       \<and> OpenStdin cfg \<and> AttachStdin cfg \<and> \<not> Tty cfg
       \<and> CapDrop hc = [''ALL''] \<and> NetworkMode hc = ''none''
       \<and> SecurityOpt hc = [''no-new-privileges'']
       \<and> Memory (Resources hc) = 512 * 1024 * 1024
       \<and> MemorySwap (Resources hc) = Memory (Resources hc)
       \<and> CPUQuota (Resources hc) = 50000 \<and> CPUPeriod (Resources hc) = 100000
       \<and> PidsLimit (Resources hc) = Some 100
       \<and> hc = Create_hostConfig
       \<and> cfg \<in> Create_config ` snd ` set templates"
proof -
  from perform_events [of w op p] assms
  have "create_event_ok (Rt_ContainerCreate cfg hc name reply)"
    by (auto simp add: list_all_iff)
  then have hc: "hc = Create_hostConfig" and "list_ex (\<lambda>(t, img). cfg = Create_config img) templates"
    by simp_all
  then obtain t img where "(t, img) \<in> set templates" "cfg = Create_config img"
    by (auto simp add: list_ex_iff)
  then have cfg: "cfg \<in> Create_config ` snd ` set templates" by force
  then obtain img' where "cfg = Create_config img'" by blast
  with hc cfg show ?thesis
    by (simp add: Create_config_def Create_hostConfig_def)
qed

theorem created_containers_posture_witness:
  "Rt_ContainerCreate (Create_config ''python:3.11-slim'') Create_hostConfig
      ''sandbox-0a1b2c3d'' (Inr ''c-sandbox-0a1b2c3d'')
     \<in> set (snd (perform world_ok (Op_Create ''python'' 5) NewDockerProvider_state))
   \<and> Memory (Resources Create_hostConfig) = 536870912
   \<and> MemorySwap (Resources Create_hostConfig) = 536870912
   \<and> NetworkMode Create_hostConfig = ''none''
   \<and> CapDrop Create_hostConfig = [''ALL'']"
proof -
  have ev: "Rt_ContainerCreate (Create_config ''python:3.11-slim'') Create_hostConfig
      ''sandbox-0a1b2c3d'' (Inr ''c-sandbox-0a1b2c3d'')
     \<in> set (snd (perform world_ok (Op_Create ''python'' 5) NewDockerProvider_state))"
    by (simp add: Create_def world_ok_def templates_def NewDockerProvider_state_def Let_def)
  show ?thesis
    using ev created_containers_posture [OF ev] by simp
qed

text \<open>
  Claim C5.  For a registered id, the locked section of \<open>Delete\<close> removes the record,
  and only then is the runtime asked to remove the container: the write to the map comes
  first among the events.  The state that a second delete meets is the one the locked
  section left, whether it runs while the first is still removing the container or after
  it, and after any further operations that do not draw the same id again for a new
  sandbox.  There the second delete finds nothing: it returns ``sandbox not found'',
  changes nothing and calls the runtime not at all.  The handler passes that error on in
  its DELETE_FAILED envelope, with the message as detail.
\<close>

theorem second_delete_not_found:
  assumes reg: "map_of (sandboxes p) sid = Some sb"
      and par: "Unmarshal_DeleteParams params = Some (DeleteParams sid)"
      and ne: "sid \<noteq> []"
      and fresh: "\<forall>(w1, op) \<in> set ops. take 8 (uuid_New w1) \<noteq> sid"
  shows "Delete_locked sid p = (Some sb, p\<lparr>sandboxes := AList.delete sid (sandboxes p)\<rparr>, [Reg_delete sid])
       \<and> snd (Delete w sid p) =
           (p\<lparr>sandboxes := AList.delete sid (sandboxes p)\<rparr>,
            [Reg_delete sid,
             Rt_ContainerRemove (ContainerID sb) True (ContainerRemove w (ContainerID sb) True)])
       \<and> (let q = fst (run_ops ops (p\<lparr>sandboxes := AList.delete sid (sandboxes p)\<rparr>, h))
          in Delete w' sid q = (Some (sandbox_not_found sid), q, [])
           \<and> ServeHTTP w' (Unmarshal_ok (RPCRequest ''2.0'' i ''sandbox.v1.delete'' params)) q =
               (RPCResponse ''2.0'' i None
                  (Some (rpcErr (- 32007) ''delete failed'' ''DELETE_FAILED'' True
                           (details_err (''sandbox not found: '' @ sid)))),
                q, []))"
proof -
  let ?p1 = "p\<lparr>sandboxes := AList.delete sid (sandboxes p)\<rparr>"
  let ?q = "fst (run_ops ops (?p1, h))"
  have gone: "map_of (sandboxes ?p1) sid = None"
    by (simp add: map_of_delete_self)
  have still: "map_of (sandboxes ?q) sid = None"
    using gone fresh by (rule not_found_persists)
  have again: "Delete w' sid ?q = (Some (sandbox_not_found sid), ?q, [])"
    using still by (rule Delete_absent)
  have rpc: "ServeHTTP w' (Unmarshal_ok (RPCRequest ''2.0'' i ''sandbox.v1.delete'' params)) ?q =
           (RPCResponse ''2.0'' i None
              (Some (rpcErr (- 32007) ''delete failed'' ''DELETE_FAILED'' True
                       (details_err (''sandbox not found: '' @ sid)))), ?q, [])"
    by (simp only: ServeHTTP_delete [OF par ne] again) simp
  show ?thesis
    using Delete_locked_found [OF reg] Delete_found [OF reg, of w] again rpc
    by (simp add: Let_def)
qed

theorem second_delete_not_found_witness:
  "map_of (sandboxes provider_a) ''aaaaaaaa'' = Some sandbox_a
   \<and> take 8 (uuid_New world_ok) \<noteq> ''aaaaaaaa''
   \<and> snd (snd (Delete world_ok ''aaaaaaaa'' provider_a)) =
       [Reg_delete ''aaaaaaaa'', Rt_ContainerRemove ''c-a'' True None]
   \<and> Delete world_ok ''aaaaaaaa''
        (fst (run_ops [(world_ok, Op_Create ''python'' 5)] (NewDockerProvider_state, []))) =
       (Some (sandbox_not_found ''aaaaaaaa''),
        fst (run_ops [(world_ok, Op_Create ''python'' 5)] (NewDockerProvider_state, [])), [])"
proof -
  have reg: "map_of (sandboxes provider_a) ''aaaaaaaa'' = Some sandbox_a"
    by (simp add: provider_a_def)
  have par: "Unmarshal_DeleteParams params_delete_a = Some (DeleteParams ''aaaaaaaa'')"
    by (simp add: params_delete_a_def no_params_def)
  have ne: "''aaaaaaaa'' \<noteq> []" by simp
  have u: "take 8 (uuid_New world_ok) \<noteq> ''aaaaaaaa''"
    by (simp add: world_ok_def)
  then have fresh: "\<forall>(w1, op) \<in> set [(world_ok, Op_Create ''python'' 5)].
                      take 8 (uuid_New w1) \<noteq> ''aaaaaaaa''"
    by simp
  have st: "provider_a\<lparr>sandboxes := AList.delete ''aaaaaaaa'' (sandboxes provider_a)\<rparr>
              = NewDockerProvider_state"
    by (simp add: provider_a_def NewDockerProvider_state_def)
  have rm: "ContainerRemove world_ok (ContainerID sandbox_a) True = None"
    by (simp add: world_ok_def)
  have cid: "ContainerID sandbox_a = ''c-a''"
    by (simp add: sandbox_a_def)
  show ?thesis
    using reg u
      second_delete_not_found [OF reg par ne fresh,
        where w = world_ok and w' = world_ok and h = "[]" and i = "id_number 2"]
    by (simp only: st Let_def cid) (simp add: rm [unfolded cid])
qed

text \<open>
  Claim C9.  When the runtime fails to remove the container, \<open>Delete\<close> has already
  taken the record out of the map and does not put it back.  The handler reports
  DELETE_FAILED, marked retryable.  From then on, after any further operations that do
  not draw the same id again for a new sandbox, the lookup for the terminal, \<open>Exec\<close> and
  \<open>Delete\<close> all return ``sandbox not found'', and a repeated delete request gets
  DELETE_FAILED again without any call of the runtime.
\<close>

theorem failed_removal_loses_record:
  assumes reg: "map_of (sandboxes p) sid = Some sb"
      and fail: "ContainerRemove w (ContainerID sb) True = Some e"
      and par: "Unmarshal_DeleteParams params = Some (DeleteParams sid)"
      and ne: "sid \<noteq> []"
      and fresh: "\<forall>(w1, op) \<in> set ops. take 8 (uuid_New w1) \<noteq> sid"
  shows "ServeHTTP w (Unmarshal_ok (RPCRequest ''2.0'' i ''sandbox.v1.delete'' params)) p =
           (RPCResponse ''2.0'' i None
              (Some (rpcErr (- 32007) ''delete failed'' ''DELETE_FAILED'' True
                       (details_err (''failed to remove container: '' @ rt_message e)))),
            p\<lparr>sandboxes := AList.delete sid (sandboxes p)\<rparr>,
            [Reg_delete sid, Rt_ContainerRemove (ContainerID sb) True (Some e)])
       \<and> (let q = fst (run_ops ops (p\<lparr>sandboxes := AList.delete sid (sandboxes p)\<rparr>, h))
          in GetContainerID sid q = Inl (sandbox_not_found sid)
           \<and> Exec w' sid cmd cwd env maxOut maxErr q = (Exec_failed 0 (sandbox_not_found sid), [])
           \<and> Delete w' sid q = (Some (sandbox_not_found sid), q, [])
           \<and> ServeHTTP w' (Unmarshal_ok (RPCRequest ''2.0'' i' ''sandbox.v1.delete'' params)) q =
               (RPCResponse ''2.0'' i' None
                  (Some (rpcErr (- 32007) ''delete failed'' ''DELETE_FAILED'' True
                           (details_err (''sandbox not found: '' @ sid)))),
                q, []))"
proof -
  let ?p1 = "p\<lparr>sandboxes := AList.delete sid (sandboxes p)\<rparr>"
  let ?q = "fst (run_ops ops (?p1, h))"
  have gone: "map_of (sandboxes ?p1) sid = None"
    by (simp add: map_of_delete_self)
  have still: "map_of (sandboxes ?q) sid = None"
    using gone fresh by (rule not_found_persists)
  have first: "Delete w sid p = (Some (failed_to_remove_container e), ?p1,
      [Reg_delete sid, Rt_ContainerRemove (ContainerID sb) True (Some e)])"
    using Delete_found [OF reg, of w] fail by simp
  have again: "Delete w' sid ?q = (Some (sandbox_not_found sid), ?q, [])"
    using still by (rule Delete_absent)
  have rpc1: "ServeHTTP w (Unmarshal_ok (RPCRequest ''2.0'' i ''sandbox.v1.delete'' params)) p =
           (RPCResponse ''2.0'' i None
              (Some (rpcErr (- 32007) ''delete failed'' ''DELETE_FAILED'' True
                       (details_err (''failed to remove container: '' @ rt_message e)))),
            ?p1, [Reg_delete sid, Rt_ContainerRemove (ContainerID sb) True (Some e)])"
    by (simp only: ServeHTTP_delete [OF par ne] first) simp
  have rpc2: "ServeHTTP w' (Unmarshal_ok (RPCRequest ''2.0'' i' ''sandbox.v1.delete'' params)) ?q =
           (RPCResponse ''2.0'' i' None
              (Some (rpcErr (- 32007) ''delete failed'' ''DELETE_FAILED'' True
                       (details_err (''sandbox not found: '' @ sid)))), ?q, [])"
    by (simp only: ServeHTTP_delete [OF par ne] again) simp
  show ?thesis
    using rpc1 rpc2 again GetContainerID_absent [OF still] Exec_absent [OF still]
    by (simp add: Let_def)
qed

theorem failed_removal_loses_record_witness:
  "map_of (sandboxes provider_a) ''aaaaaaaa'' = Some sandbox_a
   \<and> ContainerRemove world_noremove (ContainerID sandbox_a) True = Some (RtError ''busy'' False)
   \<and> take 8 (uuid_New world_ok) \<noteq> ''aaaaaaaa''
   \<and> ServeHTTP world_noremove
        (Unmarshal_ok (RPCRequest ''2.0'' (id_number 2) ''sandbox.v1.delete'' params_delete_a))
        provider_a =
       (RPCResponse ''2.0'' (id_number 2) None
          (Some (rpcErr (- 32007) ''delete failed'' ''DELETE_FAILED'' True
                   (details_err ''failed to remove container: busy''))),
        NewDockerProvider_state,
        [Reg_delete ''aaaaaaaa'', Rt_ContainerRemove ''c-a'' True (Some (RtError ''busy'' False))])
   \<and> Delete world_ok ''aaaaaaaa''
        (fst (run_ops [(world_ok, Op_Create ''python'' 5)] (NewDockerProvider_state, []))) =
       (Some (sandbox_not_found ''aaaaaaaa''),
        fst (run_ops [(world_ok, Op_Create ''python'' 5)] (NewDockerProvider_state, [])), [])"
proof -
  have reg: "map_of (sandboxes provider_a) ''aaaaaaaa'' = Some sandbox_a"
    by (simp add: provider_a_def)
  have fail: "ContainerRemove world_noremove (ContainerID sandbox_a) True
                = Some (RtError ''busy'' False)"
    by (simp add: world_noremove_def)
  have par: "Unmarshal_DeleteParams params_delete_a = Some (DeleteParams ''aaaaaaaa'')"
    by (simp add: params_delete_a_def no_params_def)
  have ne: "''aaaaaaaa'' \<noteq> []" by simp
  have u: "take 8 (uuid_New world_ok) \<noteq> ''aaaaaaaa''"
    by (simp add: world_ok_def)
  then have fresh: "\<forall>(w1, op) \<in> set [(world_ok, Op_Create ''python'' 5)].
                      take 8 (uuid_New w1) \<noteq> ''aaaaaaaa''"
    by simp
  have st: "provider_a\<lparr>sandboxes := AList.delete ''aaaaaaaa'' (sandboxes provider_a)\<rparr>
              = NewDockerProvider_state"
    by (simp add: provider_a_def NewDockerProvider_state_def)
  have cid: "ContainerID sandbox_a = ''c-a''"
    by (simp add: sandbox_a_def)
  show ?thesis
    using reg fail u
      failed_removal_loses_record [OF reg fail par ne fresh,
        where w' = world_ok and h = "[]" and i = "id_number 2" and i' = "id_number 3"]
    by (simp only: st Let_def cid) simp
qed

section \<open>Properties of the reaper\<close>

lemma toDelete_set:
  assumes "distinct (map fst (sandboxes p))"
  shows "set (toDelete now p) = {i. \<exists>sb. map_of (sandboxes p) i = Some sb \<and> ExpiresAt sb < now}"
  using assms by (auto simp add: toDelete_def After_def) force

lemma toDelete_distinct:
  "distinct (map fst (sandboxes p)) \<Longrightarrow> distinct (toDelete now p)"
  by (simp add: toDelete_def distinct_map_filter)

lemma Delete_each_deleted:
  assumes "distinct ids" and "\<forall>i \<in> set ids. map_of (sandboxes p) i \<noteq> None"
  shows "{i. Reg_delete i \<in> set (snd (Delete_each w ids p))} = set ids"
  using assms
proof (induction ids arbitrary: p)
  case Nil
  then show ?case by simp
next
  case (Cons i ids)
  from Cons.prems(2) obtain sb where reg: "map_of (sandboxes p) i = Some sb" by auto
  let ?p1 = "p\<lparr>sandboxes := AList.delete i (sandboxes p)\<rparr>"
  have rest: "\<forall>j \<in> set ids. map_of (sandboxes ?p1) j \<noteq> None"
    using Cons.prems by (auto simp add: delete_conv')
  have ih: "{j. Reg_delete j \<in> set (snd (Delete_each w ids ?p1))} = set ids"
    using Cons.IH [OF _ rest] Cons.prems(1) by simp
  obtain p2 ev2 where r: "Delete_each w ids ?p1 = (p2, ev2)"
    by (metis prod.exhaust)
  have "snd (Delete_each w (i # ids) p) =
          [Reg_delete i,
           Rt_ContainerRemove (ContainerID sb) True (ContainerRemove w (ContainerID sb) True)] @ ev2"
    by (simp add: Delete_found [OF reg] r)
  with ih r show ?case by auto
qed

text \<open>
  Claim C7, as the code has it.  At a tick that reads the time \<open>now\<close>, the ids selected
  for deletion are exactly the registered ids whose \<open>ExpiresAt\<close> is strictly before
  \<open>now\<close>, and these are exactly the ids whose records the tick deletes.  The keys of the
  map are distinct in every state the server reaches (\<open>run_ops_keeps\<close>).
\<close>

theorem reaper_selects_strictly_expired:
  assumes "distinct (map fst (sandboxes p))"
  shows "set (toDelete now p) =
           {i. \<exists>sb. map_of (sandboxes p) i = Some sb \<and> ExpiresAt sb < now}
       \<and> {i. Reg_delete i \<in> set (snd (cleanupExpired w p))} =
           {i. \<exists>sb. map_of (sandboxes p) i = Some sb \<and> ExpiresAt sb < time_Now w}"
proof -
  have sel: "set (toDelete (time_Now w) p) =
           {i. \<exists>sb. map_of (sandboxes p) i = Some sb \<and> ExpiresAt sb < time_Now w}"
    using assms by (rule toDelete_set)
  then have "\<forall>i \<in> set (toDelete (time_Now w) p). map_of (sandboxes p) i \<noteq> None"
    by auto
  from Delete_each_deleted [OF toDelete_distinct [OF assms] this] sel toDelete_set [OF assms, of now]
  show ?thesis by (simp add: cleanupExpired_def)
qed

theorem reaper_selects_strictly_expired_witness:
  "distinct (map fst (sandboxes provider_a))
   \<and> set (toDelete 101 provider_a) = {''aaaaaaaa''}
   \<and> {i. \<exists>sb. map_of (sandboxes provider_a) i = Some sb \<and> ExpiresAt sb < 101} = {''aaaaaaaa''}"
proof -
  have d: "distinct (map fst (sandboxes provider_a))"
    by (simp add: provider_a_def)
  have v: "toDelete 101 provider_a = [''aaaaaaaa'']"
    by (simp add: toDelete_def provider_a_def sandbox_a_def After_def)
  show ?thesis
    using d reaper_selects_strictly_expired [OF d, of 101 world_ok]
    by (simp add: v)
qed

text \<open>
  Claim C7 as stated fails at the boundary: a registered sandbox whose \<open>ExpiresAt\<close>
  equals the time of the tick is not among the selected ids, and the tick deletes
  nothing.
\<close>

theorem reaper_boundary_counterexample:
  "map_of (sandboxes provider_a) ''aaaaaaaa'' = Some sandbox_a
   \<and> ExpiresAt sandbox_a \<le> time_Now world_ok
   \<and> ''aaaaaaaa'' \<notin> set (toDelete (time_Now world_ok) provider_a)
   \<and> cleanupExpired world_ok provider_a = (provider_a, [])"
proof -
  have n: "time_Now world_ok = 100" by (simp add: world_ok_def)
  have v: "toDelete 100 provider_a = []"
    by (simp add: toDelete_def provider_a_def sandbox_a_def After_def)
  have m: "map_of (sandboxes provider_a) ''aaaaaaaa'' = Some sandbox_a"
    by (simp add: provider_a_def)
  have e: "ExpiresAt sandbox_a = 100" by (simp add: sandbox_a_def)
  have c: "cleanupExpired world_ok provider_a = (provider_a, [])"
    by (simp add: cleanupExpired_def n v)
  from n v m e c show ?thesis by simp
qed

section \<open>Properties of the terminal bridge\<close>

lemma bridge_wait_blocked:
  "\<not> done_closed b \<Longrightarrow> bridge_run (replicate n Receive_done) b = b"
  by (induction n) simp_all

lemma bridge_step_inv:
  assumes "done_closed b \<longrightarrow> downstream b = Returned" and "handler_returned b \<longrightarrow> done_closed b"
  shows "(done_closed (bridge_step e b) \<longrightarrow> downstream (bridge_step e b) = Returned)
       \<and> (handler_returned (bridge_step e b) \<longrightarrow> done_closed (bridge_step e b))"
proof (cases e)
  case (Reader_Read r ok)
  with assms show ?thesis by (cases r) auto
next
  case (Conn_ReadMessage r ok)
  with assms show ?thesis by (cases r) auto
next
  case Receive_done
  with assms show ?thesis by auto
qed

lemma bridge_run_inv:
  assumes "done_closed b \<longrightarrow> downstream b = Returned" and "handler_returned b \<longrightarrow> done_closed b"
  shows "(done_closed (bridge_run es b) \<longrightarrow> downstream (bridge_run es b) = Returned)
       \<and> (handler_returned (bridge_run es b) \<longrightarrow> done_closed (bridge_run es b))"
  using assms
proof (induction es arbitrary: b)
  case Nil
  then show ?case by simp
next
  case (Cons e es)
  from bridge_step_inv [OF Cons.prems, of e] Cons.IH [of "bridge_step e b"]
  show ?case by simp
qed

lemma teardown_needs_downstream:
  "handler_returned (bridge_run es bridge_start) \<Longrightarrow>
   downstream (bridge_run es bridge_start) = Returned"
  using bridge_run_inv [of bridge_start es] by (simp add: bridge_start_def)

text \<open>
  Claim C10.  The termination of either copy loop tears the bridge down.  In the code
  only the loop that reads from the container closes \<open>done\<close>.  When the client's side
  fails first, the loop that reads from the client returns and nothing else happens:
  \<open>done\<close> stays open, the handler stays at its receive however often it is scheduled,
  its deferred \<open>Close\<close> calls do not run, and the other loop keeps running.  When the
  container's side fails first, \<open>done\<close> is closed and the handler returns.
\<close>

theorem client_close_leaves_bridge_up:
  "bridge_run (Conn_ReadMessage Failed ok # replicate n Receive_done) bridge_start =
     \<lparr>downstream = Running, upstream = Returned, done_closed = False,
      handler_returned = False, to_client = [], to_container = []\<rparr>
   \<and> bridge_run [Reader_Read Failed ok, Receive_done] bridge_start =
     \<lparr>downstream = Returned, upstream = Running, done_closed = True,
      handler_returned = True, to_client = [], to_container = []\<rparr>"
proof -
  have "\<not> done_closed (bridge_step (Conn_ReadMessage Failed ok) bridge_start)"
    by (simp add: bridge_start_def)
  from bridge_wait_blocked [OF this, of n] show ?thesis
    by (simp add: bridge_start_def)
qed

end
